theory Spec2Isabelle
  imports Complex_Main
begin

section \<open>Clock readings and stored timestamps\<close>

text \<open>
  \<^verbatim>\<open>datetime.now()\<close> has microsecond resolution: a clock reading is the number of
  microseconds since a fixed epoch.  Every timestamp the program stores is written with
  \<^verbatim>\<open>strftime("%Y-%m-%d %H:%M:%S")\<close> and read back with \<^verbatim>\<open>strptime\<close>; such a string
  denotes a whole second, and is represented by the number of that second.
\<close>

type_synonym datetime = int
type_synonym timestamp = int

definition strftime :: "datetime \<Rightarrow> timestamp" where
  "strftime t = t div 1000000"

definition strptime :: "timestamp \<Rightarrow> datetime" where
  "strptime s = s * 1000000"

definition timedelta_seconds :: "int \<Rightarrow> int" where
  "timedelta_seconds n = n * 1000000"

definition timedelta_minutes :: "int \<Rightarrow> int" where
  "timedelta_minutes n = n * 60000000"

section \<open>Persistent state\<close>

text \<open>
  The tables of \<^verbatim>\<open>auth.db\<close> (database.py, \<^verbatim>\<open>create_tables\<close>), the text file
  \<^verbatim>\<open>logs/access.log\<close> of logger.py (one line per attempt, held as the row the line is
  formatted from), the signing key file of session.py and the snapshot directory of
  login.py (one image per second of capture: a later snapshot of the same second
  overwrites the file).  The \<^verbatim>\<open>identifier\<close> column of
  \<^verbatim>\<open>lockouts\<close> and the \<^verbatim>\<open>username\<close> column of \<^verbatim>\<open>users\<close> are UNIQUE, so these two
  tables are maps from the key to the row.
\<close>

record lockout_row =
  fail_count :: int
  locked_until :: "timestamp option"

record log_row =
  log_username :: string
  log_status :: string
  log_confidence :: rat
  log_timestamp :: timestamp

record user_row =
  fullname :: string
  pin_hash :: "string option"
  date_registered :: timestamp

text \<open>
  Modelled from the spec: the schema of the \<^verbatim>\<open>sessions\<close> table, which no
  \<^verbatim>\<open>CREATE TABLE\<close> of the source declares.  The columns and the uniqueness of the
  token follow section 6 of the specification, "Sessions(username, token unique,
  created_at, expires_at, active)"; \<^verbatim>\<open>active\<close> is an integer, written 1 and 0 by
  session.py.
\<close>

record session_row =
  ses_username :: string
  ses_token :: string
  ses_created_at :: timestamp
  ses_expires_at :: timestamp
  ses_active :: int

text \<open>
  What the two detectors and the recogniser see in one captured camera frame:
  the left and right eye-openness ratios of the largest face found by the liveness
  detector (if it finds one), the (label, distance) prediction for each face found by
  the recognition pass, and whether ESC is pressed at the \<^verbatim>\<open>waitKey\<close> that follows.
\<close>

record frame =
  eye_ratios :: "(rat \<times> rat) option"
  predictions :: "(int \<times> rat) list"
  esc_pressed :: bool

record system =
  users :: "string \<rightharpoonup> user_row"
  logs :: "log_row list"
  lockouts :: "string \<rightharpoonup> lockout_row"
  sessions :: "session_row list"
  log_file :: "log_row list"
  key_file :: "string option"
  intruders :: "timestamp \<rightharpoonup> frame"

section \<open>Lockout Guard (database.py)\<close>

definition get_lockout :: "string \<Rightarrow> system \<Rightarrow> int \<times> timestamp option" where
  "get_lockout identifier st =
     (case lockouts st identifier of
        Some row \<Rightarrow> (fail_count row, locked_until row)
      | None \<Rightarrow> (0, None))"

definition record_failure ::
  "datetime \<Rightarrow> string \<Rightarrow> system \<Rightarrow> (int \<times> timestamp option) \<times> system" where
  "record_failure now identifier st =
     (let fc = fst (get_lockout identifier st) + 1;
          lu = (if fc \<ge> 5 then Some (strftime (now + timedelta_seconds 30)) else None)
      in ((fc, lu),
          st\<lparr>lockouts := (lockouts st)(identifier \<mapsto>
                \<lparr>fail_count = fc, locked_until = lu\<rparr>)\<rparr>))"

definition reset_failures :: "string \<Rightarrow> system \<Rightarrow> system" where
  "reset_failures identifier st = st\<lparr>lockouts := (lockouts st)(identifier := None)\<rparr>"

text \<open>
  \<^verbatim>\<open>int((locked_dt - now).total_seconds())\<close> is only evaluated for a positive
  difference, where truncation is the floor of the quotient by one second.
\<close>

definition is_locked_out :: "datetime \<Rightarrow> string \<Rightarrow> system \<Rightarrow> (bool \<times> int) \<times> system" where
  "is_locked_out now identifier st =
     (case snd (get_lockout identifier st) of
        Some lu \<Rightarrow>
          (let locked_dt = strptime lu in
           if now < locked_dt then ((True, (locked_dt - now) div 1000000), st)
           else ((False, 0), reset_failures identifier st))
      | None \<Rightarrow> ((False, 0), st))"

text \<open>A sequence of \<^verbatim>\<open>record_failure\<close> calls on one identifier, one clock reading per call.\<close>

fun record_failures :: "datetime list \<Rightarrow> string \<Rightarrow> system \<Rightarrow> system" where
  "record_failures [] identifier st = st"
| "record_failures (t # ts) identifier st =
     record_failures ts identifier (snd (record_failure t identifier st))"

text \<open>A system with empty tables, no key file and no snapshots.\<close>

definition fresh_system :: system where
  "fresh_system = \<lparr>users = Map.empty, logs = [], lockouts = Map.empty, sessions = [],
                    log_file = [], key_file = None, intruders = Map.empty\<rparr>"

section \<open>PIN Verifier (pin\_auth.py)\<close>

text \<open>
  \<^verbatim>\<open>bytes.hex()\<close> and \<^verbatim>\<open>hexdigest()\<close>: two lower-case hexadecimal digits per byte.
\<close>

definition hex_digit :: "nat \<Rightarrow> char" where
  "hex_digit n = ''0123456789abcdef'' ! n"

definition hex_byte :: "char \<Rightarrow> string" where
  "hex_byte c = [hex_digit (of_char c div 16), hex_digit (of_char c mod 16)]"

definition hex :: "string \<Rightarrow> string" where
  "hex bs = concat (map hex_byte bs)"

text \<open>
  \<^verbatim>\<open>str.strip()\<close> removes leading and trailing white space; \<^verbatim>\<open>str.isdigit()\<close> holds of
  a non-empty string of digits.  Characters are code points below 256.
\<close>

definition whitespace :: string where
  "whitespace = [CHR 0x09, CHR 0x0A, CHR 0x0B, CHR 0x0C, CHR 0x0D, CHR 0x1C, CHR 0x1D,
                 CHR 0x1E, CHR 0x1F, CHR 0x20, CHR 0x85, CHR 0xA0]"

definition is_space :: "char \<Rightarrow> bool" where
  "is_space c = (c \<in> set whitespace)"

definition py_strip :: "string \<Rightarrow> string" where
  "py_strip s = rev (dropWhile is_space (rev (dropWhile is_space s)))"

definition py_isdigit :: "string \<Rightarrow> bool" where
  "py_isdigit s = (s \<noteq> [] \<and> (\<forall>c \<in> set s. c \<in> set ''0123456789''))"

text \<open>\<^verbatim>\<open>s.split(sep, 1)\<close> for a one-character separator: at most one split, at the first
  occurrence.\<close>

definition split1 :: "char \<Rightarrow> string \<Rightarrow> string list" where
  "split1 sep s =
     (if sep \<in> set s
      then [takeWhile (\<lambda>c. c \<noteq> sep) s, tl (dropWhile (\<lambda>c. c \<noteq> sep) s)]
      else [s])"

definition SEPARATOR :: char where
  "SEPARATOR = CHR ''$''"

text \<open>
  \<^verbatim>\<open>_hash_pin(pin, salt)\<close> with the salt given.  SHA-256 is a parameter: the function
  from the bytes hashed to the 32 bytes of the digest.  When the salt is omitted the
  caller's salt is \<^verbatim>\<open>os.urandom(16).hex()\<close>; see \<open>on_confirm\<close>.
\<close>

definition hash_pin :: "(string \<Rightarrow> string) \<Rightarrow> string \<Rightarrow> string \<Rightarrow> string" where
  "hash_pin sha256 pin salt =
     (let digest = hex (sha256 (salt @ pin)) in salt @ [SEPARATOR] @ digest)"

text \<open>
  \<^verbatim>\<open>verify_pin\<close>: a stored value without separator makes the tuple assignment raise,
  which the \<^verbatim>\<open>except\<close> turns into False.
\<close>

definition verify_pin :: "(string \<Rightarrow> string) \<Rightarrow> string \<Rightarrow> string \<Rightarrow> bool" where
  "verify_pin sha256 pin stored =
     (case split1 SEPARATOR stored of
        [salt, rest] \<Rightarrow> hash_pin sha256 pin salt = stored
      | _ \<Rightarrow> False)"

text \<open>
  The handler of the "Set PIN" button of \<^verbatim>\<open>prompt_set_pin\<close>: the three rejections, then
  \<^verbatim>\<open>_hash_pin(pin)\<close> with a fresh salt, \<open>urandom16\<close> being the bytes that
  \<^verbatim>\<open>os.urandom(16)\<close> returns.
\<close>

datatype pin_error = DigitsOnly | WrongLength | NoMatch

definition on_confirm ::
  "(string \<Rightarrow> string) \<Rightarrow> string \<Rightarrow> string \<Rightarrow> string \<Rightarrow> pin_error + string" where
  "on_confirm sha256 urandom16 pin_entry confirm_entry =
     (let pin = py_strip pin_entry; confirm = py_strip confirm_entry in
      if \<not> py_isdigit pin then Inl DigitsOnly
      else if \<not> (4 \<le> length pin \<and> length pin \<le> 8) then Inl WrongLength
      else if pin \<noteq> confirm then Inl NoMatch
      else Inr (hash_pin sha256 pin (hex urandom16)))"

section \<open>Liveness Detector (liveness.py)\<close>

definition REQUIRED_BLINKS :: nat where
  "REQUIRED_BLINKS = 2"

definition MAX_FRAMES :: nat where
  "MAX_FRAMES = 300"

definition CONSEC_CLOSED :: nat where
  "CONSEC_CLOSED = 2"

definition EYE_CLOSED_RATIO :: rat where
  "EYE_CLOSED_RATIO = 23 / 100"

definition HISTORY_LEN :: nat where
  "HISTORY_LEN = 4"

text \<open>The local variables of \<^verbatim>\<open>check_liveness\<close> that live across loop iterations.\<close>

record liveness_state =
  blink_count :: nat
  frame_count :: nat
  consec_closed :: nat
  eye_was_open :: bool
  ratio_history :: "rat list"

definition liveness_init :: liveness_state where
  "liveness_init = \<lparr>blink_count = 0, frame_count = 0, consec_closed = 0,
                     eye_was_open = True, ratio_history = []\<rparr>"

text \<open>
  \<^verbatim>\<open>ratio_history.append(eye_ratio)\<close> followed by \<^verbatim>\<open>pop(0)\<close> when more than
  \<^verbatim>\<open>HISTORY_LEN\<close> samples are held, and \<^verbatim>\<open>np.mean\<close> of a non-empty list.  The ratios
  are rational numbers and the arithmetic on them is exact.
\<close>

definition push_history :: "rat \<Rightarrow> rat list \<Rightarrow> rat list" where
  "push_history r h = (let h' = h @ [r] in if length h' > HISTORY_LEN then tl h' else h')"

definition mean :: "rat list \<Rightarrow> rat" where
  "mean xs = sum_list xs / of_nat (length xs)"

text \<open>The value of \<^verbatim>\<open>eye_closed\<close> for a frame with a face, given the state before it.\<close>

definition frame_closed :: "rat \<times> rat \<Rightarrow> liveness_state \<Rightarrow> bool" where
  "frame_closed lr st =
     (let eye_ratio = (fst lr + snd lr) / 2;
          smoothed = mean (push_history eye_ratio (ratio_history st))
      in smoothed < EYE_CLOSED_RATIO)"

text \<open>The body of \<^verbatim>\<open>if len(faces) > 0\<close>: smoothing and the blink state machine.\<close>

definition track_eyes :: "rat \<times> rat \<Rightarrow> liveness_state \<Rightarrow> liveness_state" where
  "track_eyes lr st =
     (let eye_ratio = (fst lr + snd lr) / 2;
          st1 = st\<lparr>ratio_history := push_history eye_ratio (ratio_history st)\<rparr>;
          smoothed = mean (ratio_history st1);
          eye_closed = smoothed < EYE_CLOSED_RATIO;
          st2 = (if eye_closed then st1\<lparr>consec_closed := consec_closed st1 + 1\<rparr>
                 else (if consec_closed st1 \<ge> CONSEC_CLOSED \<and> \<not> eye_was_open st1
                       then st1\<lparr>blink_count := blink_count st1 + 1, ratio_history := []\<rparr>
                       else st1)\<lparr>consec_closed := 0\<rparr>)
      in st2\<lparr>eye_was_open := \<not> eye_closed\<rparr>)"

text \<open>One loop iteration up to the overlay: count the frame, then track the eyes if a
  face was found.\<close>

definition process_frame :: "frame \<Rightarrow> liveness_state \<Rightarrow> liveness_state" where
  "process_frame f st =
     (let st1 = st\<lparr>frame_count := frame_count st + 1\<rparr>
      in case eye_ratios f of Some lr \<Rightarrow> track_eyes lr st1 | None \<Rightarrow> st1)"

text \<open>
  The \<^verbatim>\<open>while True\<close> loop over the frames the camera delivers; a failed
  \<^verbatim>\<open>cap.read()\<close> is the end of the list.  The result is the return value and the
  frames not yet read.
\<close>

fun liveness_loop :: "frame list \<Rightarrow> liveness_state \<Rightarrow> bool \<times> frame list" where
  "liveness_loop [] st = (False, [])"
| "liveness_loop (f # fs) st =
     (let st' = process_frame f st in
      if blink_count st' \<ge> REQUIRED_BLINKS then (True, fs)
      else if frame_count st' \<ge> MAX_FRAMES then (False, fs)
      else if esc_pressed f then (False, fs)
      else liveness_loop fs st')"

text \<open>The state after a sequence of loop iterations, and the \<^verbatim>\<open>eye_closed\<close> values of
  its frames with a face, in order.\<close>

fun run_frames :: "frame list \<Rightarrow> liveness_state \<Rightarrow> liveness_state" where
  "run_frames [] st = st"
| "run_frames (f # fs) st = run_frames fs (process_frame f st)"

fun closed_flags :: "frame list \<Rightarrow> liveness_state \<Rightarrow> bool list" where
  "closed_flags [] st = []"
| "closed_flags (f # fs) st =
     (case eye_ratios f of
        Some lr \<Rightarrow> frame_closed lr st # closed_flags fs (process_frame f st)
      | None \<Rightarrow> closed_flags fs (process_frame f st))"

text \<open>The length of the closed span that ends a sequence of \<^verbatim>\<open>eye_closed\<close> values.\<close>

definition closed_span :: "bool list \<Rightarrow> nat" where
  "closed_span flags = length (takeWhile (\<lambda>b. b) (rev flags))"

text \<open>Two sample frames with a face: eyes shut (ratio 0.1) and eyes open (ratio 0.6).\<close>

definition frame_shut :: frame where
  "frame_shut = \<lparr>eye_ratios = Some (1 / 10, 1 / 10), predictions = [], esc_pressed = False\<rparr>"

definition frame_open :: frame where
  "frame_open = \<lparr>eye_ratios = Some (6 / 10, 6 / 10), predictions = [], esc_pressed = False\<rparr>"

section \<open>Session Issuer (session.py)\<close>

definition SESSION_DURATION_MINUTES :: int where
  "SESSION_DURATION_MINUTES = 30"

text \<open>The dictionary that \<^verbatim>\<open>create_session\<close> serialises.\<close>

record payload =
  p_username :: string
  p_created_at :: timestamp
  p_expires_at :: timestamp
  p_nonce :: string

text \<open>
  The library functions the module calls, as parameters: HMAC-SHA256 from key and
  message to the digest bytes; \<^verbatim>\<open>base64.b64encode(json.dumps(d).encode()).decode()\<close>;
  and its inverse followed by \<^verbatim>\<open>strptime\<close> of the \<^verbatim>\<open>expires_at\<close> field, which is
  \<open>None\<close> where one of these raises.
\<close>

record codec =
  hmac_sha256 :: "string \<Rightarrow> string \<Rightarrow> string"
  encode_payload :: "payload \<Rightarrow> string"
  decode_payload :: "string \<Rightarrow> payload option"

datatype exn = TypeError | DecodeError | IntegrityError

text \<open>
  \<^verbatim>\<open>_get_secret_key\<close>: the stripped content of the key file if it exists; otherwise
  \<^verbatim>\<open>secrets.token_hex(32)\<close>, written to the file.  \<open>rnd32\<close> is the random bytes that
  call would draw.
\<close>

definition get_secret_key :: "string \<Rightarrow> system \<Rightarrow> string \<times> system" where
  "get_secret_key rnd32 st =
     (case key_file st of
        Some content \<Rightarrow> (py_strip content, st)
      | None \<Rightarrow> (let key = hex rnd32 in (key, st\<lparr>key_file := Some key\<rparr>)))"

definition sign :: "codec \<Rightarrow> string \<Rightarrow> string \<Rightarrow> system \<Rightarrow> string \<times> system" where
  "sign lib rnd32 msg st =
     (let (key, st') = get_secret_key rnd32 st in (hex (hmac_sha256 lib key msg), st'))"

definition make_payload :: "string \<Rightarrow> datetime \<Rightarrow> datetime \<Rightarrow> string \<Rightarrow> payload" where
  "make_payload username now_expires now_created rnd8 =
     \<lparr>p_username = username,
      p_created_at = strftime now_created,
      p_expires_at = strftime (now_expires + timedelta_minutes SESSION_DURATION_MINUTES),
      p_nonce = hex rnd8\<rparr>"

text \<open>
  \<^verbatim>\<open>create_session\<close> reads the clock twice, first for \<^verbatim>\<open>expires_at\<close> and then for
  \<^verbatim>\<open>created_at\<close>; \<open>rnd32\<close> and \<open>rnd8\<close> are the random bytes behind
  \<^verbatim>\<open>secrets.token_hex(32)\<close> and \<^verbatim>\<open>secrets.token_hex(8)\<close>.  The INSERT raises when the
  token is already in the table (the token column is unique).
\<close>

definition create_session ::
  "codec \<Rightarrow> string \<Rightarrow> string \<Rightarrow> datetime \<Rightarrow> datetime \<Rightarrow> string \<Rightarrow> system
     \<Rightarrow> (exn + string) \<times> system" where
  "create_session lib rnd32 rnd8 now_expires now_created username st =
     (let pl = make_payload username now_expires now_created rnd8;
          encoded = encode_payload lib pl;
          (sig, st1) = sign lib rnd32 encoded st;
          token = encoded @ ''.'' @ sig
      in if token \<in> ses_token ` set (sessions st1) then (Inl IntegrityError, st1)
         else (Inr token,
               st1\<lparr>sessions := sessions st1 @
                 [\<lparr>ses_username = username, ses_token = token,
                   ses_created_at = p_created_at pl, ses_expires_at = p_expires_at pl,
                   ses_active = 1\<rparr>]\<rparr>))"

definition invalidate_session :: "string \<Rightarrow> system \<Rightarrow> system" where
  "invalidate_session token st =
     st\<lparr>sessions := map (\<lambda>r. if ses_token r = token then r\<lparr>ses_active := 0\<rparr> else r)
                          (sessions st)\<rparr>"

text \<open>\<^verbatim>\<open>s.rsplit(sep, 1)\<close> for a one-character separator: one split, at the last
  occurrence.\<close>

definition rsplit1 :: "char \<Rightarrow> string \<Rightarrow> string list" where
  "rsplit1 sep s =
     (if sep \<in> set s
      then [rev (tl (dropWhile (\<lambda>c. c \<noteq> sep) (rev s))), rev (takeWhile (\<lambda>c. c \<noteq> sep) (rev s))]
      else [s])"

text \<open>\<^verbatim>\<open>hmac.compare_digest\<close> on two \<^verbatim>\<open>str\<close> raises TypeError unless both are ASCII.\<close>

definition is_ascii :: "string \<Rightarrow> bool" where
  "is_ascii s = (\<forall>c \<in> set s. (of_char c :: nat) < 128)"

definition compare_digest :: "string \<Rightarrow> string \<Rightarrow> bool option" where
  "compare_digest a b = (if is_ascii a \<and> is_ascii b then Some (a = b) else None)"

text \<open>
  \<^verbatim>\<open>validate_session\<close>.  \<open>Inr None\<close> is the return value None, \<open>Inr (Some p)\<close> the
  payload, \<open>Inl e\<close> an exception that leaves the function.
\<close>

definition validate_session ::
  "codec \<Rightarrow> string \<Rightarrow> datetime \<Rightarrow> string \<Rightarrow> system \<Rightarrow> (exn + payload option) \<times> system" where
  "validate_session lib rnd32 now token st =
     (case rsplit1 (CHR ''.'') token of
        [encoded, sig] \<Rightarrow>
          (let (expected, st1) = sign lib rnd32 encoded st in
           case compare_digest expected sig of
             None \<Rightarrow> (Inl TypeError, st1)
           | Some False \<Rightarrow> (Inr None, st1)
           | Some True \<Rightarrow>
               (case decode_payload lib encoded of
                  None \<Rightarrow> (Inl DecodeError, st1)
                | Some pl \<Rightarrow>
                    (let expires = strptime (p_expires_at pl) in
                     if now > expires then (Inr None, invalidate_session token st1)
                     else (case find (\<lambda>r. ses_token r = token) (sessions st1) of
                             None \<Rightarrow> (Inr None, st1)
                           | Some row \<Rightarrow>
                               if ses_active row \<noteq> 1 then (Inr None, st1)
                               else (Inr (Some pl), st1)))))
      | _ \<Rightarrow> (Inr None, st))"

text \<open>
  A concrete codec for running examples: a keyed hash that is trivially injective in the
  message, timestamps as twelve decimal digits, then the nonce, a semicolon and the
  username.
\<close>

fun dec_digits :: "nat \<Rightarrow> nat \<Rightarrow> string" where
  "dec_digits 0 m = []"
| "dec_digits (Suc n) m = dec_digits n (m div 10) @ [''0123456789'' ! (m mod 10)]"

definition dec_value :: "string \<Rightarrow> nat" where
  "dec_value s = foldl (\<lambda>a c. 10 * a + (of_char c - 48)) 0 s"

definition demo_encode :: "payload \<Rightarrow> string" where
  "demo_encode pl = dec_digits 12 (nat (p_created_at pl)) @ dec_digits 12 (nat (p_expires_at pl))
                      @ p_nonce pl @ '';'' @ p_username pl"

definition demo_decode :: "string \<Rightarrow> payload option" where
  "demo_decode s =
     (case split1 (CHR '';'') (drop 24 s) of
        [nonce, username] \<Rightarrow>
          Some \<lparr>p_username = username, p_created_at = int (dec_value (take 12 s)),
                p_expires_at = int (dec_value (take 12 (drop 12 s))), p_nonce = nonce\<rparr>
      | _ \<Rightarrow> None)"

definition demo_codec :: codec where
  "demo_codec = \<lparr>hmac_sha256 = (\<lambda>key msg. key @ msg), encode_payload = demo_encode,
                 decode_payload = demo_decode\<rparr>"

text \<open>A session created for alice at clock reading \<open>t\<close> in a fresh system.\<close>

definition demo_session :: "datetime \<Rightarrow> (exn + string) \<times> system" where
  "demo_session t = create_session demo_codec ''key'' ''nonce'' t t ''alice'' fresh_system"

definition demo_token :: "datetime \<Rightarrow> string" where
  "demo_token t = projr (fst (demo_session t))"

definition demo_state :: "datetime \<Rightarrow> system" where
  "demo_state t = snd (demo_session t)"

section \<open>Access log (logger.py) and the PIN dialog (pin\_auth.py)\<close>

text \<open>\<^verbatim>\<open>log_attempt\<close>: one row in the \<^verbatim>\<open>logs\<close> table and one line in the text file.\<close>

definition log_attempt :: "datetime \<Rightarrow> string \<Rightarrow> string \<Rightarrow> rat \<Rightarrow> system \<Rightarrow> system" where
  "log_attempt now username status confidence st =
     (let row = \<lparr>log_username = username, log_status = status, log_confidence = confidence,
                 log_timestamp = strftime now\<rparr>
      in st\<lparr>logs := logs st @ [row], log_file := log_file st @ [row]\<rparr>)"

definition get_pin_hash :: "string \<Rightarrow> system \<Rightarrow> string option" where
  "get_pin_hash username st =
     (case users st username of Some row \<Rightarrow> pin_hash row | None \<Rightarrow> None)"

text \<open>
  \<^verbatim>\<open>prompt_verify_pin\<close> is a modal dialog, driven by what the user does: submit an
  entry, cancel, or nothing more (the window is closed).  A wrong entry that uses up the
  tries schedules the window to close one second later; \<open>TimerFires\<close> is that moment.
  The arguments are the stored hash, \<^verbatim>\<open>remaining["count"]\<close> and whether the closing is
  scheduled.
\<close>

datatype pin_event = Submit string | Cancel | TimerFires

fun pin_dialog :: "(string \<Rightarrow> string) \<Rightarrow> string \<Rightarrow> int \<Rightarrow> bool \<Rightarrow> pin_event list \<Rightarrow> bool" where
  "pin_dialog sha256 stored remaining closing [] = False"
| "pin_dialog sha256 stored remaining closing (Cancel # evs) = False"
| "pin_dialog sha256 stored remaining closing (TimerFires # evs) =
     (if closing then False else pin_dialog sha256 stored remaining closing evs)"
| "pin_dialog sha256 stored remaining closing (Submit entry # evs) =
     (if verify_pin sha256 (py_strip entry) stored then True
      else if remaining - 1 \<le> 0 then pin_dialog sha256 stored (remaining - 1) True evs
      else pin_dialog sha256 stored (remaining - 1) closing evs)"

definition prompt_verify_pin :: "(string \<Rightarrow> string) \<Rightarrow> string \<Rightarrow> pin_event list \<Rightarrow> bool" where
  "prompt_verify_pin sha256 stored_hash evs = pin_dialog sha256 stored_hash 3 False evs"

section \<open>Authentication Orchestrator (login.py)\<close>

definition CONFIDENCE_THRESHOLD :: rat where
  "CONFIDENCE_THRESHOLD = 80"

definition LOCKOUT_IDENTIFIER :: string where
  "LOCKOUT_IDENTIFIER = ''login''"

definition MAX_RECOG_FRAMES :: nat where
  "MAX_RECOG_FRAMES = 150"

text \<open>
  The \<^verbatim>\<open>cv2.VideoCapture\<close> object: whether it is open, and the frames it will still
  deliver.  A released capture is closed, and a closed or exhausted capture reads
  nothing.
\<close>

record camera =
  opened :: bool
  stream :: "frame list"

definition cap_read :: "camera \<Rightarrow> frame option \<times> camera" where
  "cap_read cap =
     (if opened cap
      then (case stream cap of [] \<Rightarrow> (None, cap) | f # fs \<Rightarrow> (Some f, cap\<lparr>stream := fs\<rparr>))
      else (None, cap))"

definition cap_release :: "camera \<Rightarrow> camera" where
  "cap_release cap = cap\<lparr>opened := False\<rparr>"

definition check_liveness :: "camera \<Rightarrow> bool \<times> camera" where
  "check_liveness cap =
     (if opened cap
      then (let (ok, rest) = liveness_loop (stream cap) liveness_init in (ok, cap\<lparr>stream := rest\<rparr>))
      else (False, cap))"

definition save_intruder_snapshot :: "datetime \<Rightarrow> frame \<Rightarrow> system \<Rightarrow> system" where
  "save_intruder_snapshot now fr st = st\<lparr>intruders := (intruders st)(strftime now \<mapsto> fr)\<rparr>"

text \<open>
  The variables of the recognition loop.  \<^verbatim>\<open>recognized_user\<close> and
  \<^verbatim>\<open>best_confidence\<close> are assigned together and are held as one optional pair.
\<close>

record recog_state =
  recognized :: "(string \<times> rat) option"
  intruder_frame :: "frame option"
  frames_checked :: nat

definition recog_init :: recog_state where
  "recog_init = \<lparr>recognized = None, intruder_frame = None, frames_checked = 0\<rparr>"

text \<open>\<^verbatim>\<open>if recognized_user\<close>: None and the empty string are false.\<close>

definition is_recognized :: "recog_state \<Rightarrow> bool" where
  "is_recognized rs = (case recognized rs of Some (u, q) \<Rightarrow> u \<noteq> [] | None \<Rightarrow> False)"

text \<open>The \<^verbatim>\<open>for\<close> loop over the faces of one frame, with its \<^verbatim>\<open>break\<close> at the first
  accepted match.\<close>

fun scan_faces :: "(int \<rightharpoonup> string) \<Rightarrow> frame \<Rightarrow> (int \<times> rat) list \<Rightarrow> recog_state \<Rightarrow> recog_state" where
  "scan_faces label_map fr [] rs = rs"
| "scan_faces label_map fr ((label_id, confidence) # rest) rs =
     (let match_quality = max 0 (100 - confidence);
          predicted_user = (case label_map label_id of Some u \<Rightarrow> u | None \<Rightarrow> ''Unknown'')
      in if confidence < CONFIDENCE_THRESHOLD
         then rs\<lparr>recognized := Some (predicted_user, match_quality), intruder_frame := None\<rparr>
         else scan_faces label_map fr rest (rs\<lparr>intruder_frame := Some fr\<rparr>))"

text \<open>The \<^verbatim>\<open>while frames_checked < MAX_RECOG_FRAMES\<close> loop; the result is the final
  variables and the frames not read.\<close>

fun recognition_loop ::
  "(int \<rightharpoonup> string) \<Rightarrow> frame list \<Rightarrow> recog_state \<Rightarrow> recog_state \<times> frame list" where
  "recognition_loop label_map [] rs = (rs, [])"
| "recognition_loop label_map (f # fs) rs =
     (if frames_checked rs < MAX_RECOG_FRAMES
      then (let rs1 = scan_faces label_map f (predictions f)
                        (rs\<lparr>frames_checked := frames_checked rs + 1\<rparr>)
            in if is_recognized rs1 then (rs1, fs)
               else if esc_pressed f then (rs1, fs)
               else recognition_loop label_map fs rs1)
      else (rs, f # fs))"

text \<open>
  The library functions that format the messages, as parameters: SHA-256 (for the PIN),
  \<^verbatim>\<open>str\<close> of an integer, and the format \<^verbatim>\<open>.1f\<close> of a number.
\<close>

record pylib =
  hash_sha256 :: "string \<Rightarrow> string"
  str_int :: "int \<Rightarrow> string"
  format_1f :: "rat \<Rightarrow> string"

text \<open>
  Everything one call of \<^verbatim>\<open>login_user\<close> takes from outside: the model files, the
  camera, the user at the PIN dialog, and the clock reading of each step that reads the
  clock (no path reads it twice in the same step).
\<close>

record world =
  model_files_exist :: bool
  model_load :: "string + (int \<rightharpoonup> string)"
  camera_opens :: bool
  camera_frames :: "frame list"
  pin_events :: "pin_event list"
  now_lockout :: datetime
  now_failure :: datetime
  now_log :: datetime
  now_snapshot :: datetime

text \<open>The tail of the three failure messages that report the lockout counter.\<close>

definition lockout_suffix :: "pylib \<Rightarrow> string \<Rightarrow> int \<Rightarrow> string" where
  "lockout_suffix lib msg fc =
     (if fc \<ge> 5 then msg @ [CHR 0x0A] @ ''Account locked for 30 seconds.''
      else msg @ '' ('' @ str_int lib (5 - fc) @ '' attempt(s) left before lockout)'')"

text \<open>The branch \<^verbatim>\<open>if not liveness_ok\<close>, in the order of the source: release, count the
  failure, log, then try to read a frame for the snapshot, release again.\<close>

definition liveness_failed :: "pylib \<Rightarrow> world \<Rightarrow> camera \<Rightarrow> system \<Rightarrow> (bool \<times> string) \<times> system" where
  "liveness_failed lib w cap st =
     (let cap1 = cap_release cap;
          ((fc, lu), st1) = record_failure (now_failure w) LOCKOUT_IDENTIFIER st;
          st2 = log_attempt (now_log w) ''UNKNOWN'' ''LIVENESS_FAIL'' 0 st1;
          (snap, cap2) = (if opened cap1 then cap_read cap1 else (None, cap1));
          st3 = (case snap of Some fr \<Rightarrow> save_intruder_snapshot (now_snapshot w) fr st2
                 | None \<Rightarrow> st2);
          cap3 = cap_release cap2
      in ((False, lockout_suffix lib ''Liveness check failed. Please blink naturally.'' fc), st3))"

definition face_not_recognised :: "pylib \<Rightarrow> world \<Rightarrow> recog_state \<Rightarrow> system \<Rightarrow> (bool \<times> string) \<times> system" where
  "face_not_recognised lib w rs st =
     (let st1 = (case intruder_frame rs of
                   Some fr \<Rightarrow> log_attempt (now_log w) ''UNKNOWN'' ''INTRUDER'' 0
                                (save_intruder_snapshot (now_snapshot w) fr st)
                 | None \<Rightarrow> log_attempt (now_log w) ''UNKNOWN'' ''FAILED'' 0 st);
          ((fc, lu), st2) = record_failure (now_failure w) LOCKOUT_IDENTIFIER st1
      in ((False, lockout_suffix lib ''Face not recognised.'' fc), st2))"

definition pin_stage ::
  "pylib \<Rightarrow> world \<Rightarrow> string \<Rightarrow> rat \<Rightarrow> system \<Rightarrow> (bool \<times> string) \<times> system" where
  "pin_stage lib w recognized_user best_confidence st =
     (case get_pin_hash recognized_user st of
        None \<Rightarrow>
          (let st1 = log_attempt (now_log w) recognized_user ''NO_PIN'' best_confidence st;
               ((fc, lu), st2) = record_failure (now_failure w) LOCKOUT_IDENTIFIER st1
           in ((False, ''No PIN set for '' @ [CHR 0x27] @ recognized_user @ [CHR 0x27]
                         @ ''. Please re-register.''), st2))
      | Some stored_pin \<Rightarrow>
          if \<not> prompt_verify_pin (hash_sha256 lib) stored_pin (pin_events w)
          then (let st1 = log_attempt (now_log w) recognized_user ''WRONG_PIN'' best_confidence st;
                    ((fc, lu), st2) = record_failure (now_failure w) LOCKOUT_IDENTIFIER st1
                in ((False, lockout_suffix lib
                       (''Wrong PIN for '' @ [CHR 0x27] @ recognized_user @ [CHR 0x27] @ ''.'') fc),
                    st2))
          else (let st1 = reset_failures LOCKOUT_IDENTIFIER st;
                    st2 = log_attempt (now_log w) recognized_user ''SUCCESS'' best_confidence st1
                in ((True, ''Login Successful! Welcome, '' @ recognized_user @ '' (''
                             @ format_1f lib best_confidence @ ''% confidence)''), st2)))"

definition login_user :: "pylib \<Rightarrow> world \<Rightarrow> system \<Rightarrow> (bool \<times> string) \<times> system" where
  "login_user lib w st =
     (let ((locked, secs), st1) = is_locked_out (now_lockout w) LOCKOUT_IDENTIFIER st in
      if locked
      then ((False, ''Too many failed attempts.'' @ [CHR 0x0A] @ ''Account locked. Try again in ''
                      @ str_int lib secs @ '' second(s).''), st1)
      else if \<not> model_files_exist w
      then ((False, ''Model not found! Please train the model first.''), st1)
      else (case model_load w of
              Inl e \<Rightarrow> ((False, ''Error loading model: '' @ e), st1)
            | Inr label_map \<Rightarrow>
                (let cap = \<lparr>opened = camera_opens w, stream = camera_frames w\<rparr> in
                 if \<not> opened cap then ((False, ''Cannot access webcam.''), st1)
                 else (let (liveness_ok, cap1) = check_liveness cap in
                       if \<not> liveness_ok then liveness_failed lib w cap1 st1
                       else (let (rs, rest) = recognition_loop label_map (stream cap1) recog_init in
                             case recognized rs of
                               None \<Rightarrow> face_not_recognised lib w rs st1
                             | Some (recognized_user, best_confidence) \<Rightarrow>
                                 if recognized_user = [] then face_not_recognised lib w rs st1
                                 else pin_stage lib w recognized_user best_confidence st1)))))"

text \<open>
  Concrete library functions and a concrete run for examples.  The hash is the identity
  (trivially collision-free); integers are printed in decimal; a non-negative number is
  printed with one decimal, rounded half up.
\<close>

definition demo_str_int :: "int \<Rightarrow> string" where
  "demo_str_int n =
     (let d = dropWhile (\<lambda>c. c = CHR ''0'') (dec_digits 19 (nat \<bar>n\<bar>))
      in (if n < 0 then ''-'' else []) @ (if d = [] then ''0'' else d))"

definition demo_format_1f :: "rat \<Rightarrow> string" where
  "demo_format_1f q =
     (let tenths = \<lfloor>q * 10 + 1 / 2\<rfloor>
      in demo_str_int (tenths div 10) @ ''.'' @ dec_digits 1 (nat (tenths mod 10)))"

definition demo_lib :: pylib where
  "demo_lib = \<lparr>hash_sha256 = (\<lambda>m. m), str_int = demo_str_int, format_1f = demo_format_1f\<rparr>"

text \<open>A system with one user, alice, whose PIN is 4242.\<close>

definition alice_system :: system where
  "alice_system = fresh_system\<lparr>users :=
     [''alice'' \<mapsto> \<lparr>fullname = ''Alice'', pin_hash = Some (hash_pin (\<lambda>m. m) ''4242'' (hex ''salt'')),
                     date_registered = 0\<rparr>]\<rparr>"

text \<open>A frame in which the recogniser finds label 1 at distance 35.\<close>

definition frame_alice :: frame where
  "frame_alice = \<lparr>eye_ratios = Some (6 / 10, 6 / 10), predictions = [(1, 35)], esc_pressed = False\<rparr>"

text \<open>Alice blinks twice, is recognised, and types her PIN.\<close>

definition world_success :: world where
  "world_success =
     \<lparr>model_files_exist = True, model_load = Inr [1 \<mapsto> ''alice''], camera_opens = True,
      camera_frames = [frame_shut, frame_shut, frame_open, frame_shut, frame_shut, frame_open,
                       frame_alice],
      pin_events = [Submit ''4242''],
      now_lockout = 10000000, now_failure = 20000000, now_log = 21000000, now_snapshot = 22000000\<rparr>"

text \<open>The user presses ESC at the first frame of the liveness check; the camera has
  more frames to deliver.\<close>

definition world_liveness_fail :: world where
  "world_liveness_fail =
     \<lparr>model_files_exist = True, model_load = Inr [1 \<mapsto> ''alice''], camera_opens = True,
      camera_frames = [frame_open\<lparr>esc_pressed := True\<rparr>, frame_alice, frame_alice],
      pin_events = [],
      now_lockout = 10000000, now_failure = 20000000, now_log = 21000000, now_snapshot = 22000000\<rparr>"

text \<open>The same system after two failed attempts.\<close>

definition alice_system_two_failures :: system where
  "alice_system_two_failures =
     alice_system\<lparr>lockouts := [''login'' \<mapsto> \<lparr>fail_count = 2, locked_until = None\<rparr>]\<rparr>"

section \<open>Properties of the Lockout Guard\<close>

lemma strftime_add_seconds: "strftime (t + timedelta_seconds n) = strftime t + n"
  by (simp add: strftime_def timedelta_seconds_def)

lemma strptime_strftime_le: "strptime (strftime t) \<le> t"
  by (simp add: strftime_def strptime_def)

lemma strptime_strftime_gt: "t < strptime (strftime t) + 1000000"
proof -
  have "t = (t div 1000000) * 1000000 + t mod 1000000" by simp
  moreover have "t mod 1000000 < 1000000" by simp
  ultimately show ?thesis unfolding strftime_def strptime_def by linarith
qed

lemma get_lockout_record_failure:
  "get_lockout ident (snd (record_failure t ident st)) =
     (fst (get_lockout ident st) + 1,
      if fst (get_lockout ident st) + 1 \<ge> 5 then Some (strftime t + 30) else None)"
  by (simp add: record_failure_def get_lockout_def Let_def strftime_add_seconds)

lemma get_lockout_record_failures:
  "get_lockout ident (record_failures (ts @ [t]) ident st) =
     (fst (get_lockout ident st) + int (length ts) + 1,
      if fst (get_lockout ident st) + int (length ts) + 1 \<ge> 5
      then Some (strftime t + 30) else None)"
proof (induction ts arbitrary: st)
  case Nil
  show ?case by (simp add: get_lockout_record_failure)
next
  case (Cons a ts)
  show ?case
    by (simp add: Cons.IH get_lockout_record_failure add.assoc)
qed

text \<open>
  A check made up to 28 seconds after a failure at \<open>t\<close> still sees at least one whole
  second of a lock that was set by that failure.
\<close>

lemma within_28s_leaves_a_second:
  assumes "now \<le> t + timedelta_seconds 28"
  shows "now + timedelta_seconds 1 \<le> strptime (strftime (t + timedelta_seconds 30))"
proof -
  have "t < strptime (strftime t) + 1000000" by (rule strptime_strftime_gt)
  then show ?thesis
    using assms unfolding strftime_add_seconds
    by (simp add: strptime_def timedelta_seconds_def)
qed

text \<open>
  C2 (lockout threshold).  Start from a state in which the identifier reads as
  fail_count 0 and locked_until null (no row: never used, or reset, since
  \<^verbatim>\<open>reset_failures\<close> deletes the row).  After five
  \<^verbatim>\<open>record_failure\<close> calls (the four at \<open>ts\<close>, then one at \<open>t5\<close>) a check reports
  locked with a positive number of seconds remaining; after four calls a check, at any
  time \<open>now'\<close>, reports not locked.  The lock is in force for a check made while at
  least one whole second of the stored \<^verbatim>\<open>locked_until\<close> remains, which by
  \<open>within_28s_leaves_a_second\<close> covers every check up to 28 s after the fifth failure.
\<close>

theorem lockout_threshold:
  assumes absent: "get_lockout ident st = (0, None)"
    and four: "length ts = 4"
    and window: "now + timedelta_seconds 1 \<le> strptime (strftime (t5 + timedelta_seconds 30))"
  shows "(\<exists>r. fst (is_locked_out now ident (record_failures (ts @ [t5]) ident st)) = (True, r) \<and> 0 < r)
       \<and> fst (is_locked_out now' ident (record_failures ts ident st)) = (False, 0)"
proof -
  have g5: "get_lockout ident (record_failures (ts @ [t5]) ident st) = (5, Some (strftime t5 + 30))"
    using absent four by (simp add: get_lockout_record_failures)
  obtain ts3 t4 where ts: "ts = ts3 @ [t4]" and l3: "length ts3 = 3"
    using four by (cases ts rule: rev_cases) auto
  have g4: "get_lockout ident (record_failures ts ident st) = (4, None)"
    using absent l3 unfolding ts by (simp add: get_lockout_record_failures)
  have w: "now + 1000000 \<le> (strftime t5 + 30) * 1000000"
    using window unfolding strftime_add_seconds by (simp add: strptime_def timedelta_seconds_def)
  then have pos: "0 < ((strftime t5 + 30) * 1000000 - now) div 1000000"
    by (simp add: pos_imp_zdiv_pos_iff)
  have "fst (is_locked_out now ident (record_failures (ts @ [t5]) ident st)) =
          (True, ((strftime t5 + 30) * 1000000 - now) div 1000000)"
    using w by (simp add: is_locked_out_def g5 strptime_def Let_def)
  moreover have "fst (is_locked_out now' ident (record_failures ts ident st)) = (False, 0)"
    by (simp add: is_locked_out_def g4)
  ultimately show ?thesis using pos by blast
qed

theorem lockout_threshold_witness:
  "(\<exists>r. fst (is_locked_out 2000000 ''login''
            (record_failures ([100, 200, 300, 400] @ [1500000]) ''login'' fresh_system)) = (True, r) \<and> 0 < r)
   \<and> fst (is_locked_out 2000000 ''login''
            (record_failures [100, 200, 300, 400] ''login'' fresh_system)) = (False, 0)"
proof -
  have a: "get_lockout ''login'' fresh_system = (0, None)"
    by (simp add: get_lockout_def fresh_system_def)
  have b: "length [100, 200, 300, 400 :: int] = 4" by simp
  have c: "(2000000::int) + timedelta_seconds 1 \<le> strptime (strftime (1500000 + timedelta_seconds 30))"
    by (simp add: timedelta_seconds_def strptime_def strftime_def)
  show ?thesis by (rule lockout_threshold [OF a b c])
qed

text \<open>
  C8 (lazy lockout expiry).  If the stored \<^verbatim>\<open>locked_until\<close> of an identifier lies in
  the past at check time, \<^verbatim>\<open>is_locked_out\<close> returns (False, 0), and afterwards
  \<^verbatim>\<open>get_lockout\<close> reads fail_count 0 and locked_until null for that identifier.
\<close>

theorem lockout_expiry:
  assumes row: "lockouts st ident = Some row"
    and lu: "locked_until row = Some lu"
    and past: "strptime lu < now"
  shows "fst (is_locked_out now ident st) = (False, 0)
       \<and> get_lockout ident (snd (is_locked_out now ident st)) = (0, None)"
  using assms
  by (simp add: is_locked_out_def get_lockout_def reset_failures_def Let_def)

theorem lockout_expiry_witness:
  "fst (is_locked_out 31000001 ''login''
         (fresh_system\<lparr>lockouts := [''login'' \<mapsto> \<lparr>fail_count = 5, locked_until = Some 31\<rparr>]\<rparr>)) = (False, 0)
   \<and> get_lockout ''login'' (snd (is_locked_out 31000001 ''login''
         (fresh_system\<lparr>lockouts := [''login'' \<mapsto> \<lparr>fail_count = 5, locked_until = Some 31\<rparr>]\<rparr>))) = (0, None)"
proof -
  have a: "lockouts (fresh_system\<lparr>lockouts := [''login'' \<mapsto> \<lparr>fail_count = 5, locked_until = Some 31\<rparr>]\<rparr>) ''login''
             = Some \<lparr>fail_count = 5, locked_until = Some 31\<rparr>" by simp
  have b: "locked_until \<lparr>fail_count = 5, locked_until = Some 31\<rparr> = Some 31" by simp
  have c: "strptime 31 < 31000001" by (simp add: strptime_def)
  show ?thesis by (rule lockout_expiry [OF a b c])
qed

text \<open>
  C9 (locked_until is set only at the threshold).  For every identifier, every starting
  state and every sequence of \<^verbatim>\<open>record_failure\<close> calls, look at any call of the
  sequence (the one at \<open>t\<close>, after the calls at \<open>ts\<close>): the fail_count it stores is the
  initial one plus the number of calls so far; the locked_until it stores is non-null
  exactly when that fail_count has reached the threshold 5, and is then the second of
  the failure plus 30; below 5 it is null.  The call returns what it stored.
\<close>

theorem locked_until_set_only_at_threshold:
  "fst (get_lockout ident (record_failures (ts @ [t]) ident st))
      = fst (get_lockout ident st) + int (length ts) + 1
   \<and> snd (get_lockout ident (record_failures (ts @ [t]) ident st))
      = (if 5 \<le> fst (get_lockout ident st) + int (length ts) + 1
         then Some (strftime t + 30) else None)
   \<and> fst (record_failure t ident (record_failures ts ident st))
      = get_lockout ident (record_failures (ts @ [t]) ident st)"
proof -
  have app: "record_failures (ts @ [t]) ident st = snd (record_failure t ident (record_failures ts ident st))"
    by (induction ts arbitrary: st) simp_all
  have ret: "fst (record_failure t ident s) = get_lockout ident (snd (record_failure t ident s))" for s
    by (simp add: record_failure_def get_lockout_def Let_def)
  have third: "fst (record_failure t ident (record_failures ts ident st))
      = get_lockout ident (record_failures (ts @ [t]) ident st)"
    unfolding app by (rule ret)
  show ?thesis
    using third by (simp add: get_lockout_record_failures)
qed

section \<open>Properties of the PIN Verifier\<close>

lemma hex_digit_inj:
  assumes "n < 16" "m < 16" "hex_digit n = hex_digit m"
  shows "n = m"
proof -
  have d: "distinct ''0123456789abcdef''" by simp
  have l: "length ''0123456789abcdef'' = 16" by simp
  show ?thesis
    using assms nth_eq_iff_index_eq [OF d, of n m] unfolding hex_digit_def l by simp
qed

lemma hex_digit_in: "n < 16 \<Longrightarrow> hex_digit n \<in> set ''0123456789abcdef''"
  unfolding hex_digit_def by (rule nth_mem) simp

lemma of_char_lt_256: "(of_char c :: nat) < 256"
proof -
  have "(of_char c :: nat) mod 256 < 256" by (rule mod_less_divisor) simp
  then show ?thesis by simp
qed

lemma of_char_div_16: "(of_char c :: nat) div 16 < 16"
  by (rule less_mult_imp_div_less) (simp add: of_char_lt_256)

lemma hex_byte_inj:
  assumes "hex_byte c = hex_byte d"
  shows "c = d"
proof -
  have "(of_char c :: nat) div 16 = of_char d div 16"
    using assms by (intro hex_digit_inj) (auto simp: hex_byte_def of_char_div_16)
  moreover have "(of_char c :: nat) mod 16 = of_char d mod 16"
    using assms by (intro hex_digit_inj) (auto simp: hex_byte_def)
  ultimately have "(of_char c :: nat) = of_char d"
    by (metis div_mult_mod_eq)
  then show ?thesis by simp
qed

lemma hex_inj: "hex xs = hex ys \<Longrightarrow> xs = ys"
proof (induction xs arbitrary: ys)
  case Nil
  then show ?case by (cases ys) (simp_all add: hex_def hex_byte_def)
next
  case (Cons x xs)
  then obtain y ys' where ys: "ys = y # ys'"
    by (cases ys) (simp_all add: hex_def hex_byte_def)
  from Cons.prems have "hex_byte x @ hex xs = hex_byte y @ hex ys'"
    by (simp add: hex_def ys)
  then have "hex_byte x = hex_byte y" and "hex xs = hex ys'"
    by (simp_all add: hex_byte_def)
  then show ?case using Cons.IH hex_byte_inj ys by blast
qed

lemma hex_chars: "c \<in> set (hex bs) \<Longrightarrow> c \<in> set ''0123456789abcdef''"
proof -
  assume "c \<in> set (hex bs)"
  then obtain b where "c \<in> set (hex_byte b)" by (auto simp: hex_def)
  then have "c = hex_digit (of_char b div 16) \<or> c = hex_digit (of_char b mod 16)"
    by (simp add: hex_byte_def)
  moreover have "(of_char b :: nat) div 16 < 16" by (rule of_char_div_16)
  moreover have "(of_char b :: nat) mod 16 < 16" by simp
  ultimately show ?thesis using hex_digit_in by blast
qed

lemma split1_sep:
  assumes "sep \<notin> set a"
  shows "split1 sep (a @ [sep] @ b) = [a, b]"
proof -
  have "takeWhile (\<lambda>c. c \<noteq> sep) (a @ sep # b) = a"
    by (subst takeWhile_append2) (use assms in auto)
  moreover have "dropWhile (\<lambda>c. c \<noteq> sep) (a @ sep # b) = sep # b"
    by (subst dropWhile_append2) (use assms in auto)
  ultimately show ?thesis by (simp add: split1_def)
qed

lemma dropWhile_none: "\<forall>x\<in>set xs. \<not> P x \<Longrightarrow> dropWhile P xs = xs"
  by (cases xs) simp_all

lemma py_strip_id: "\<forall>c\<in>set s. \<not> is_space c \<Longrightarrow> py_strip s = s"
  by (simp add: py_strip_def dropWhile_none)

lemma digit_not_space: "c \<in> set ''0123456789'' \<Longrightarrow> \<not> is_space c"
  by (auto simp: is_space_def whitespace_def)

lemma py_strip_digits: "py_isdigit s \<Longrightarrow> py_strip s = s"
  by (rule py_strip_id) (simp add: py_isdigit_def digit_not_space)

lemma verify_pin_hash_pin:
  assumes "SEPARATOR \<notin> set salt"
  shows "verify_pin sha256 p (hash_pin sha256 pin salt)
           = (hex (sha256 (salt @ p)) = hex (sha256 (salt @ pin)))"
  using split1_sep [OF assms]
  by (simp add: verify_pin_def hash_pin_def)

text \<open>
  C5 (PIN round trip).  With SHA-256 treated as collision-free (injective), for every
  all-digit PIN of 4 to 8 characters and every fresh salt: setting the PIN succeeds and
  yields the salted hash; verifying the same PIN against it is true; verifying any
  other string against it is false.
\<close>

theorem pin_round_trip:
  assumes collision_free: "inj sha256"
    and digits: "py_isdigit pin"
    and len: "4 \<le> length pin \<and> length pin \<le> 8"
  shows "on_confirm sha256 urandom16 pin pin = Inr (hash_pin sha256 pin (hex urandom16))
       \<and> verify_pin sha256 pin (hash_pin sha256 pin (hex urandom16))
       \<and> (\<forall>wrong_pin. wrong_pin \<noteq> pin \<longrightarrow>
             \<not> verify_pin sha256 wrong_pin (hash_pin sha256 pin (hex urandom16)))"
proof -
  have nosep: "SEPARATOR \<notin> set (hex urandom16)"
    using hex_chars [of SEPARATOR urandom16] by (auto simp: SEPARATOR_def)
  have set: "on_confirm sha256 urandom16 pin pin = Inr (hash_pin sha256 pin (hex urandom16))"
    using digits len by (simp add: on_confirm_def py_strip_digits)
  have wrong: "\<not> verify_pin sha256 w (hash_pin sha256 pin (hex urandom16))" if "w \<noteq> pin" for w
  proof
    assume "verify_pin sha256 w (hash_pin sha256 pin (hex urandom16))"
    then have "hex (sha256 (hex urandom16 @ w)) = hex (sha256 (hex urandom16 @ pin))"
      by (simp add: verify_pin_hash_pin [OF nosep])
    then have "sha256 (hex urandom16 @ w) = sha256 (hex urandom16 @ pin)" by (rule hex_inj)
    then have "hex urandom16 @ w = hex urandom16 @ pin" using collision_free by (simp add: inj_eq)
    then show False using that by simp
  qed
  show ?thesis using set wrong by (simp add: verify_pin_hash_pin [OF nosep])
qed

theorem pin_round_trip_witness:
  "on_confirm (\<lambda>m. m) ''0123456789abcdef'' ''4242'' ''4242''
      = Inr (hash_pin (\<lambda>m. m) ''4242'' (hex ''0123456789abcdef''))
   \<and> verify_pin (\<lambda>m. m) ''4242'' (hash_pin (\<lambda>m. m) ''4242'' (hex ''0123456789abcdef''))
   \<and> \<not> verify_pin (\<lambda>m. m) ''4243'' (hash_pin (\<lambda>m. m) ''4242'' (hex ''0123456789abcdef''))"
proof -
  have a: "inj (\<lambda>m::string. m)" by simp
  have b: "py_isdigit ''4242''" by (simp add: py_isdigit_def)
  have c: "4 \<le> length ''4242'' \<and> length ''4242'' \<le> 8" by simp
  note rt = pin_round_trip [OF a b c, of "''0123456789abcdef''"]
  have d: "''4243'' \<noteq> ''4242''" by simp
  have w: "\<not> verify_pin (\<lambda>m. m) ''4243'' (hash_pin (\<lambda>m. m) ''4242'' (hex ''0123456789abcdef''))"
    by (rule rt [THEN conjunct2, THEN conjunct2, rule_format, OF d])
  show ?thesis
    by (intro conjI rt [THEN conjunct1] rt [THEN conjunct2, THEN conjunct1] w)
qed

section \<open>Properties of the Liveness Detector\<close>

lemma frame_closed_frame_count [simp]:
  "frame_closed lr (st\<lparr>frame_count := n\<rparr>) = frame_closed lr st"
  by (simp add: frame_closed_def)

lemma run_frames_append: "run_frames (fs @ gs) st = run_frames gs (run_frames fs st)"
  by (induction fs arbitrary: st) simp_all

lemma closed_flags_append:
  "closed_flags (fs @ gs) st = closed_flags fs st @ closed_flags gs (run_frames fs st)"
  by (induction fs arbitrary: st) (simp_all split: option.split)

lemma closed_span_snoc:
  "closed_span (flags @ [b]) = (if b then Suc (closed_span flags) else 0)"
  by (simp add: closed_span_def)

lemma track_eyes_fields:
  "consec_closed (track_eyes lr st) = (if frame_closed lr st then consec_closed st + 1 else 0)"
  "eye_was_open (track_eyes lr st) = (\<not> frame_closed lr st)"
  "blink_count (track_eyes lr st) =
     (if \<not> frame_closed lr st \<and> CONSEC_CLOSED \<le> consec_closed st \<and> \<not> eye_was_open st
      then blink_count st + 1 else blink_count st)"
  "ratio_history (track_eyes lr st) =
     (if \<not> frame_closed lr st \<and> CONSEC_CLOSED \<le> consec_closed st \<and> \<not> eye_was_open st
      then [] else push_history ((fst lr + snd lr) / 2) (ratio_history st))"
  by (simp_all add: track_eyes_def frame_closed_def Let_def)

text \<open>In every reachable state the counter of closed frames is the length of the
  current closed span, and \<^verbatim>\<open>eye_was_open\<close> says that this span is empty.\<close>

lemma liveness_invariant:
  "consec_closed (run_frames fs liveness_init) = closed_span (closed_flags fs liveness_init)
   \<and> eye_was_open (run_frames fs liveness_init) = (closed_span (closed_flags fs liveness_init) = 0)"
proof (induction fs rule: rev_induct)
  case Nil
  show ?case by (simp add: liveness_init_def closed_span_def)
next
  case (snoc f fs)
  show ?case
  proof (cases "eye_ratios f")
    case None
    with snoc show ?thesis
      by (simp add: run_frames_append closed_flags_append process_frame_def)
  next
    case (Some lr)
    with snoc show ?thesis
      by (simp add: run_frames_append closed_flags_append process_frame_def
                    track_eyes_fields closed_span_snoc)
  qed
qed

text \<open>The loop of \<^verbatim>\<open>check_liveness\<close> runs the state machine over a prefix of the frames,
  and passes exactly when that prefix brings the blink counter to the required number.\<close>

lemma liveness_loop_run:
  assumes "blink_count st < REQUIRED_BLINKS"
  shows "\<exists>pre. fs = pre @ snd (liveness_loop fs st)
           \<and> fst (liveness_loop fs st) = (REQUIRED_BLINKS \<le> blink_count (run_frames pre st))"
  using assms
proof (induction fs arbitrary: st)
  case Nil
  then show ?case by simp
next
  case (Cons f fs)
  let ?st' = "process_frame f st"
  show ?case
  proof (cases "REQUIRED_BLINKS \<le> blink_count ?st' \<or> MAX_FRAMES \<le> frame_count ?st' \<or> esc_pressed f")
    case True
    then have "[f] @ snd (liveness_loop (f # fs) st) = f # fs
               \<and> fst (liveness_loop (f # fs) st) = (REQUIRED_BLINKS \<le> blink_count (run_frames [f] st))"
      by (auto simp: Let_def)
    then show ?thesis by metis
  next
    case False
    then have lt: "blink_count ?st' < REQUIRED_BLINKS" by simp
    from False have step: "liveness_loop (f # fs) st = liveness_loop fs ?st'"
      by (simp add: Let_def)
    from Cons.IH [OF lt] obtain pre where
      "fs = pre @ snd (liveness_loop fs ?st')"
      "fst (liveness_loop fs ?st') = (REQUIRED_BLINKS \<le> blink_count (run_frames pre ?st'))"
      by blast
    then have "f # fs = (f # pre) @ snd (liveness_loop (f # fs) st)
               \<and> fst (liveness_loop (f # fs) st)
                   = (REQUIRED_BLINKS \<le> blink_count (run_frames (f # pre) st))"
      unfolding step by simp
    then show ?thesis by blast
  qed
qed

text \<open>
  C4 (blink debounce).  Take any run of the detector from its initial state: the frames
  \<open>fs\<close> processed so far, then the frame \<open>f\<close>.  Frames without a face change nothing but
  the frame counter, so a closed span is a maximal run of frames with a face whose
  smoothed ratio is below the closed threshold.  The blink counter goes up by one at
  \<open>f\<close> exactly when \<open>f\<close> has a face, is open, and the closed span just before it has at
  least 2 frames; otherwise it keeps its value, so a span of fewer than 2 closed frames
  (a single-frame dip followed by open) counts nothing.  Whenever a blink is counted the
  smoothing history is empty afterwards.
\<close>

theorem blink_debounce:
  "blink_count (process_frame f (run_frames fs liveness_init)) =
     (case eye_ratios f of
        None \<Rightarrow> blink_count (run_frames fs liveness_init)
      | Some lr \<Rightarrow>
          if \<not> frame_closed lr (run_frames fs liveness_init)
             \<and> 2 \<le> closed_span (closed_flags fs liveness_init)
          then blink_count (run_frames fs liveness_init) + 1
          else blink_count (run_frames fs liveness_init))
   \<and> (\<forall>lr. eye_ratios f = Some lr
          \<and> \<not> frame_closed lr (run_frames fs liveness_init)
          \<and> 2 \<le> closed_span (closed_flags fs liveness_init)
        \<longrightarrow> ratio_history (process_frame f (run_frames fs liveness_init)) = [])"
proof -
  let ?st = "run_frames fs liveness_init"
  have inv: "consec_closed ?st = closed_span (closed_flags fs liveness_init)"
    and opn: "eye_was_open ?st = (closed_span (closed_flags fs liveness_init) = 0)"
    using liveness_invariant [of fs] by simp_all
  show ?thesis
  proof (cases "eye_ratios f")
    case None
    then show ?thesis by (simp add: process_frame_def)
  next
    case (Some lr)
    then show ?thesis
      using inv opn
      by (auto simp: process_frame_def track_eyes_fields CONSEC_CLOSED_def)
  qed
qed


text \<open>The equations that evaluate the detector on given frames.\<close>

lemmas liveness_eval =
  process_frame_def track_eyes_def frame_closed_def push_history_def mean_def closed_span_def
  liveness_init_def frame_shut_def frame_open_def Let_def
  EYE_CLOSED_RATIO_def CONSEC_CLOSED_def HISTORY_LEN_def

theorem blink_debounce_witness:
  "blink_count (process_frame frame_open (run_frames [frame_shut] liveness_init)) = 0
   \<and> blink_count (process_frame frame_open (run_frames [frame_shut, frame_shut] liveness_init)) = 1
   \<and> ratio_history (process_frame frame_open (run_frames [frame_shut, frame_shut] liveness_init)) = []"
  using blink_debounce [of frame_open "[frame_shut]"]
        blink_debounce [of frame_open "[frame_shut, frame_shut]"]
  by (simp add: liveness_eval)

section \<open>Properties of the Session Issuer\<close>

lemma rsplit1_sep:
  assumes "sep \<notin> set b"
  shows "rsplit1 sep (a @ [sep] @ b) = [a, b]"
proof -
  have r: "rev (a @ [sep] @ b) = rev b @ sep # rev a" by simp
  have "takeWhile (\<lambda>c. c \<noteq> sep) (rev b @ sep # rev a) = rev b"
    by (subst takeWhile_append2) (use assms in auto)
  moreover have "dropWhile (\<lambda>c. c \<noteq> sep) (rev b @ sep # rev a) = sep # rev a"
    by (subst dropWhile_append2) (use assms in auto)
  ultimately show ?thesis unfolding rsplit1_def r by simp
qed

lemma hex_no_dot: "CHR ''.'' \<notin> set (hex bs)"
  using hex_chars [of "CHR ''.''" bs] by auto

lemma hex_ascii: "is_ascii (hex bs)"
  unfolding is_ascii_def
proof
  fix c assume "c \<in> set (hex bs)"
  then have "c \<in> set ''0123456789abcdef''" by (rule hex_chars)
  then show "(of_char c :: nat) < 128" by auto
qed

lemma hex_not_space: "c \<in> set (hex bs) \<Longrightarrow> \<not> is_space c"
proof -
  assume "c \<in> set (hex bs)"
  then have "c \<in> set ''0123456789abcdef''" by (rule hex_chars)
  then show ?thesis by (auto simp: is_space_def whitespace_def)
qed

lemma py_strip_hex: "py_strip (hex bs) = hex bs"
  by (rule py_strip_id) (simp add: hex_not_space)

lemma sign_keyed:
  assumes "key_file st = Some c"
  shows "sign lib rnd msg st = (hex (hmac_sha256 lib (py_strip c) msg), st)"
  using assms by (simp add: sign_def get_secret_key_def)

lemma sign_leaves_key:
  obtains c where "key_file (snd (sign lib rnd msg st)) = Some c"
    and "fst (sign lib rnd msg st) = hex (hmac_sha256 lib (py_strip c) msg)"
    and "sessions (snd (sign lib rnd msg st)) = sessions st"
proof (cases "key_file st")
  case None
  show ?thesis
    by (rule that [of "hex rnd"]) (simp_all add: sign_def get_secret_key_def None Let_def py_strip_hex)
next
  case (Some c)
  show ?thesis
    by (rule that [of c]) (simp_all add: sign_keyed [OF Some] Some)
qed

lemma find_snoc_new:
  assumes "\<forall>y \<in> set xs. \<not> P y" and "P x"
  shows "find P (xs @ [x]) = Some x"
  using assms by (induction xs) simp_all

text \<open>Validation of a token whose signature part is ASCII and free of the separator,
  in a state that has a key file.\<close>

lemma validate_session_keyed:
  assumes key: "key_file st = Some c"
    and nodot: "CHR ''.'' \<notin> set sg"
    and ascii: "is_ascii sg"
  shows "validate_session lib rnd now (enc @ CHR ''.'' # sg) st =
     (if hex (hmac_sha256 lib (py_strip c) enc) \<noteq> sg then (Inr None, st)
      else case decode_payload lib enc of
             None \<Rightarrow> (Inl DecodeError, st)
           | Some pl \<Rightarrow>
               if now > strptime (p_expires_at pl)
               then (Inr None, invalidate_session (enc @ CHR ''.'' # sg) st)
               else (case find (\<lambda>r. ses_token r = enc @ CHR ''.'' # sg) (sessions st) of
                       None \<Rightarrow> (Inr None, st)
                     | Some row \<Rightarrow>
                         if ses_active row \<noteq> 1 then (Inr None, st) else (Inr (Some pl), st)))"
proof -
  have sp: "rsplit1 (CHR ''.'') (enc @ CHR ''.'' # sg) = [enc, sg]"
    using rsplit1_sep [OF nodot, of enc] by simp
  have cd: "compare_digest (hex (hmac_sha256 lib (py_strip c) enc)) sg
              = Some (hex (hmac_sha256 lib (py_strip c) enc) = sg)"
    by (simp add: compare_digest_def hex_ascii ascii)
  show ?thesis
    unfolding validate_session_def sp
    by (simp add: sign_keyed [OF key] cd Let_def split: option.split)
qed

text \<open>What a successful \<^verbatim>\<open>create_session\<close> leaves behind.\<close>

lemma create_session_Inr:
  assumes "create_session lib rnd32 rnd8 t_exp t_cr username st = (Inr token, st1)"
  obtains c row where "key_file st1 = Some c"
    and "token = encode_payload lib (make_payload username t_exp t_cr rnd8) @ CHR ''.'' #
                 hex (hmac_sha256 lib (py_strip c)
                        (encode_payload lib (make_payload username t_exp t_cr rnd8)))"
    and "find (\<lambda>r. ses_token r = token) (sessions st1) = Some row"
    and "ses_active row = 1"
proof -
  let ?enc = "encode_payload lib (make_payload username t_exp t_cr rnd8)"
  let ?s = "sign lib rnd32 ?enc st"
  obtain c where c: "key_file (snd ?s) = Some c"
    and sg: "fst ?s = hex (hmac_sha256 lib (py_strip c) ?enc)"
    and ss: "sessions (snd ?s) = sessions st"
    by (rule sign_leaves_key)
  let ?tok = "?enc @ CHR ''.'' # fst ?s"
  let ?row = "\<lparr>ses_username = username, ses_token = ?tok,
               ses_created_at = p_created_at (make_payload username t_exp t_cr rnd8),
               ses_expires_at = p_expires_at (make_payload username t_exp t_cr rnd8),
               ses_active = 1\<rparr>"
  from assms have new: "?tok \<notin> ses_token ` set (sessions (snd ?s))"
    and tok: "token = ?tok"
    and st1: "st1 = (snd ?s)\<lparr>sessions := sessions (snd ?s) @ [?row]\<rparr>"
    by (auto simp: create_session_def Let_def split: prod.splits if_splits)
  have "find (\<lambda>r. ses_token r = ?tok) (sessions (snd ?s) @ [?row]) = Some ?row"
    by (rule find_snoc_new) (use new in \<open>auto simp: image_iff\<close>)
  then have f: "find (\<lambda>r. ses_token r = token) (sessions st1) = Some ?row"
    by (simp add: tok st1)
  show ?thesis
  proof (rule that [of c ?row])
    show "key_file st1 = Some c" by (simp add: st1 c)
    show "token = ?enc @ CHR ''.'' # hex (hmac_sha256 lib (py_strip c) ?enc)"
      by (simp add: tok sg)
    show "find (\<lambda>r. ses_token r = token) (sessions st1) = Some ?row" by (rule f)
    show "ses_active ?row = 1" by simp
  qed
qed

text \<open>A token from \<^verbatim>\<open>create_session\<close>, validated against the state that call left.\<close>

lemma validate_created:
  assumes created: "create_session lib rnd32 rnd8 t_exp t_cr username st = (Inr token, st1)"
    and roundtrip: "decode_payload lib (encode_payload lib (make_payload username t_exp t_cr rnd8))
                      = Some (make_payload username t_exp t_cr rnd8)"
  shows "fst (validate_session lib rnd now token st1) =
           (if now \<le> strptime (strftime (t_exp + timedelta_minutes SESSION_DURATION_MINUTES))
            then Inr (Some (make_payload username t_exp t_cr rnd8)) else Inr None)"
proof -
  let ?pl = "make_payload username t_exp t_cr rnd8"
  obtain c row where key: "key_file st1 = Some c"
    and tok: "token = encode_payload lib ?pl @ CHR ''.'' #
                 hex (hmac_sha256 lib (py_strip c) (encode_payload lib ?pl))"
    and f: "find (\<lambda>r. ses_token r = token) (sessions st1) = Some row"
    and a: "ses_active row = 1"
    using created by (rule create_session_Inr)
  have e: "p_expires_at ?pl = strftime (t_exp + timedelta_minutes SESSION_DURATION_MINUTES)"
    by (simp add: make_payload_def)
  show ?thesis
    unfolding tok
    using f [unfolded tok] a
    by (simp add: validate_session_keyed [OF key hex_no_dot hex_ascii] roundtrip e not_less)
qed


lemma demo_session_created:
  "create_session demo_codec ''key'' ''nonce'' t t ''alice'' fresh_system
     = (Inr (demo_token t), demo_state t)"
  by (simp add: demo_token_def demo_state_def demo_session_def create_session_def
                fresh_system_def sign_def get_secret_key_def Let_def)

lemma demo_roundtrip_0:
  "decode_payload demo_codec (encode_payload demo_codec (make_payload ''alice'' 0 0 ''nonce''))
     = Some (make_payload ''alice'' 0 0 ''nonce'')"
  by code_simp

lemma demo_roundtrip_half:
  "decode_payload demo_codec
     (encode_payload demo_codec (make_payload ''alice'' 500000 500000 ''nonce''))
     = Some (make_payload ''alice'' 500000 500000 ''nonce'')"
  by code_simp

text \<open>The stored expiry is the whole second of the creation reading plus 30 minutes.\<close>

lemma expiry_bounds:
  "t + timedelta_minutes SESSION_DURATION_MINUTES - timedelta_seconds 1
     < strptime (strftime (t + timedelta_minutes SESSION_DURATION_MINUTES))
   \<and> strptime (strftime (t + timedelta_minutes SESSION_DURATION_MINUTES))
     \<le> t + timedelta_minutes SESSION_DURATION_MINUTES"
  using strptime_strftime_gt [of "t + timedelta_minutes SESSION_DURATION_MINUTES"]
        strptime_strftime_le [of "t + timedelta_minutes SESSION_DURATION_MINUTES"]
  by (simp add: timedelta_seconds_def)

text \<open>
  C3 (session validity window), as the code has it.  Let \<open>E\<close> be the creation reading
  plus 30 minutes, cut to the whole second (so \<open>T + 30min - 1s < E \<le> T + 30min\<close>).  A
  token that \<^verbatim>\<open>create_session\<close> returned, validated at \<open>now\<close> against the state that
  call left, is accepted (the payload is returned) when \<open>now \<le> E\<close> and rejected when
  \<open>E < now\<close>.
\<close>

theorem session_validity_window:
  assumes created: "create_session lib rnd32 rnd8 t_exp t_cr username st = (Inr token, st1)"
    and roundtrip: "decode_payload lib (encode_payload lib (make_payload username t_exp t_cr rnd8))
                      = Some (make_payload username t_exp t_cr rnd8)"
  shows "(now \<le> strptime (strftime (t_exp + timedelta_minutes SESSION_DURATION_MINUTES)) \<longrightarrow>
            fst (validate_session lib rnd now token st1)
              = Inr (Some (make_payload username t_exp t_cr rnd8)))
       \<and> (strptime (strftime (t_exp + timedelta_minutes SESSION_DURATION_MINUTES)) < now \<longrightarrow>
            fst (validate_session lib rnd now token st1) = Inr None)
       \<and> t_exp + timedelta_minutes SESSION_DURATION_MINUTES - timedelta_seconds 1
            < strptime (strftime (t_exp + timedelta_minutes SESSION_DURATION_MINUTES))
       \<and> strptime (strftime (t_exp + timedelta_minutes SESSION_DURATION_MINUTES))
            \<le> t_exp + timedelta_minutes SESSION_DURATION_MINUTES"
  using validate_created [OF created roundtrip, of rnd now] expiry_bounds [of t_exp]
  by simp

theorem session_validity_window_witness:
  "fst (validate_session demo_codec [] 1799000000 (demo_token 0) (demo_state 0))
     = Inr (Some (make_payload ''alice'' 0 0 ''nonce''))
   \<and> fst (validate_session demo_codec [] 1800000001 (demo_token 0) (demo_state 0)) = Inr None"
proof -
  have a: "(1799000000::int) \<le> strptime (strftime (0 + timedelta_minutes SESSION_DURATION_MINUTES))"
    and b: "strptime (strftime (0 + timedelta_minutes SESSION_DURATION_MINUTES)) < (1800000001::int)"
    by (simp_all add: strptime_def strftime_def timedelta_minutes_def SESSION_DURATION_MINUTES_def)
  show ?thesis
    using session_validity_window [OF demo_session_created demo_roundtrip_0, of 1799000000 "[]"]
          session_validity_window [OF demo_session_created demo_roundtrip_0, of 1800000001 "[]"]
          a b
    by simp
qed

text \<open>
  The claim as stated fails at both ends of the window.  A token created at the whole
  second \<open>T = 0\<close> is still accepted at exactly \<open>T + 30min\<close>; a token created at
  \<open>T = 0.5s\<close> is already rejected at \<open>1800.2s\<close>, which is before \<open>T + 30min\<close>.
\<close>

theorem session_validity_window_counterexample:
  "fst (validate_session demo_codec [] (0 + timedelta_minutes 30) (demo_token 0) (demo_state 0))
     = Inr (Some (make_payload ''alice'' 0 0 ''nonce''))
   \<and> (500000::int) \<le> 1800200000 \<and> 1800200000 < 500000 + timedelta_minutes 30
   \<and> fst (validate_session demo_codec [] 1800200000 (demo_token 500000) (demo_state 500000))
     = Inr None"
  using validate_created [OF demo_session_created demo_roundtrip_0, of "[]" "0 + timedelta_minutes 30"]
        validate_created [OF demo_session_created demo_roundtrip_half, of "[]" 1800200000]
  by (simp add: strptime_def strftime_def timedelta_minutes_def SESSION_DURATION_MINUTES_def)

text \<open>The two parts of a token are determined by the token when the signature part has
  no separator.\<close>

lemma token_parts_unique:
  assumes "a @ CHR ''.'' # b = a' @ CHR ''.'' # b'"
    and "CHR ''.'' \<notin> set b" and "CHR ''.'' \<notin> set b'"
  shows "a = a' \<and> b = b'"
proof -
  have l: "rsplit1 (CHR ''.'') (a @ CHR ''.'' # b) = [a, b]"
    using rsplit1_sep [OF assms(2), of a] by simp
  have r: "rsplit1 (CHR ''.'') (a' @ CHR ''.'' # b') = [a', b']"
    using rsplit1_sep [OF assms(3), of a'] by simp
  have "[a, b] = [a', b']"
    by (rule trans [OF l [unfolded assms(1), symmetric] r])
  then show ?thesis by simp
qed

text \<open>
  Alterations that keep the signature part ASCII.  HMAC-SHA256 is treated as an ideal
  keyed hash: for every key it is injective in the message.  Take a token that
  \<^verbatim>\<open>create_session\<close> returned, with its payload part \<open>enc\<close> and its signature part
  \<open>sg\<close>, and alter one of the two parts: either the payload part becomes any other
  string \<open>enc'\<close>, or the signature part becomes any other ASCII string \<open>sg'\<close> without
  separator.  Then \<^verbatim>\<open>validate_session\<close> returns None on the altered token, and changes
  nothing.
\<close>

lemma ascii_tamper_rejected:
  assumes created: "create_session lib rnd32 rnd8 t_exp t_cr username st = (Inr token, st1)"
    and parts: "token = enc @ CHR ''.'' # sg" "CHR ''.'' \<notin> set sg"
    and ideal: "\<And>key. inj (hmac_sha256 lib key)"
    and wellformed: "CHR ''.'' \<notin> set sg'" "is_ascii sg'"
    and altered: "(enc' \<noteq> enc \<and> sg' = sg) \<or> (enc' = enc \<and> sg' \<noteq> sg)"
  shows "validate_session lib rnd now (enc' @ CHR ''.'' # sg') st1 = (Inr None, st1)"
proof -
  let ?E = "encode_payload lib (make_payload username t_exp t_cr rnd8)"
  obtain c row where key: "key_file st1 = Some c"
    and tok: "token = ?E @ CHR ''.'' # hex (hmac_sha256 lib (py_strip c) ?E)"
    using created by (rule create_session_Inr)
  have "enc = ?E \<and> sg = hex (hmac_sha256 lib (py_strip c) ?E)"
    using parts(1) tok by (intro token_parts_unique) (simp_all add: parts(2) hex_no_dot)
  then have sg: "sg = hex (hmac_sha256 lib (py_strip c) enc)" by simp
  have "hex (hmac_sha256 lib (py_strip c) enc') \<noteq> sg'"
  proof
    assume eq: "hex (hmac_sha256 lib (py_strip c) enc') = sg'"
    from altered show False
    proof
      assume a: "enc' \<noteq> enc \<and> sg' = sg"
      with eq sg have "hex (hmac_sha256 lib (py_strip c) enc') = hex (hmac_sha256 lib (py_strip c) enc)"
        by simp
      then have "hmac_sha256 lib (py_strip c) enc' = hmac_sha256 lib (py_strip c) enc"
        by (rule hex_inj)
      then have "enc' = enc" using ideal [of "py_strip c"] by (simp add: inj_eq)
      with a show False by simp
    next
      assume "enc' = enc \<and> sg' \<noteq> sg"
      with eq sg show False by simp
    qed
  qed
  then show ?thesis
    by (simp add: validate_session_keyed [OF key wellformed])
qed

text \<open>The token of the example session, in its two parts.\<close>

lemma demo_token_parts:
  "demo_token t = encode_payload demo_codec (make_payload ''alice'' t t ''nonce'') @ CHR ''.'' #
                  hex (hmac_sha256 demo_codec (hex ''key'')
                        (encode_payload demo_codec (make_payload ''alice'' t t ''nonce'')))"
  "key_file (demo_state t) = Some (hex ''key'')"
  by (simp_all add: demo_token_def demo_state_def demo_session_def create_session_def
                    fresh_system_def sign_def get_secret_key_def Let_def)

lemma ascii_tamper_rejected_example:
  "validate_session demo_codec [] 0
     ((CHR ''1'' # tl (encode_payload demo_codec (make_payload ''alice'' 0 0 ''nonce''))) @ CHR ''.'' #
        hex (hmac_sha256 demo_codec (hex ''key'')
              (encode_payload demo_codec (make_payload ''alice'' 0 0 ''nonce''))))
     (demo_state 0) = (Inr None, demo_state 0)"
proof -
  let ?enc = "encode_payload demo_codec (make_payload ''alice'' 0 0 ''nonce'')"
  let ?sg = "hex (hmac_sha256 demo_codec (hex ''key'') ?enc)"
  have ideal: "inj (hmac_sha256 demo_codec key)" for key
    by (simp add: demo_codec_def inj_def)
  have "CHR ''1'' # tl ?enc \<noteq> ?enc" by code_simp
  then have alt: "(CHR ''1'' # tl ?enc \<noteq> ?enc \<and> ?sg = ?sg) \<or> (CHR ''1'' # tl ?enc = ?enc \<and> ?sg \<noteq> ?sg)"
    by simp
  show ?thesis
    by (rule ascii_tamper_rejected
          [OF demo_session_created demo_token_parts(1) hex_no_dot ideal hex_no_dot hex_ascii alt])
qed

text \<open>A signature part with a character outside ASCII: \<^verbatim>\<open>hmac.compare_digest\<close> raises
  TypeError, and nothing in \<^verbatim>\<open>validate_session\<close> catches it.\<close>

lemma validate_session_nonascii:
  assumes key: "key_file st = Some c"
    and nodot: "CHR ''.'' \<notin> set sg"
    and nonascii: "\<not> is_ascii sg"
  shows "validate_session lib rnd now (enc @ CHR ''.'' # sg) st = (Inl TypeError, st)"
proof -
  have sp: "rsplit1 (CHR ''.'') (enc @ CHR ''.'' # sg) = [enc, sg]"
    using rsplit1_sep [OF nodot, of enc] by simp
  have cd: "compare_digest (hex (hmac_sha256 lib (py_strip c) enc)) sg = None"
    using nonascii by (simp add: compare_digest_def)
  show ?thesis
    unfolding validate_session_def sp
    by (simp add: sign_keyed [OF key] cd)
qed

lemma created_token_nonascii_raises:
  assumes created: "create_session lib rnd32 rnd8 t_exp t_cr username st = (Inr token, st1)"
    and nodot: "CHR ''.'' \<notin> set sg'"
    and nonascii: "\<not> is_ascii sg'"
  shows "validate_session lib rnd now (enc' @ CHR ''.'' # sg') st1 = (Inl TypeError, st1)"
proof -
  obtain c row where key: "key_file st1 = Some c"
    using created by (rule create_session_Inr)
  show ?thesis by (rule validate_session_nonascii [OF key nodot nonascii])
qed

text \<open>
  C6, on the code.  Take the token of the example session and set the top bit of the
  first character of its signature part: the digit 3 (0x33) becomes the character
  U+00B3.  The altered token is a well-formed string and still splits into payload and
  signature, but \<^verbatim>\<open>validate_session\<close> does not return None on it: it raises
  TypeError, and changes nothing.  The same holds of every created token and every
  signature part with a character outside ASCII (\<open>created_token_nonascii_raises\<close>);
  alterations that leave the signature part ASCII are rejected with None
  (\<open>ascii_tamper_rejected\<close>).
\<close>

theorem tampered_signature_raises:
  "demo_token 0 = encode_payload demo_codec (make_payload ''alice'' 0 0 ''nonce'') @ CHR ''.'' #
                  hex (hmac_sha256 demo_codec (hex ''key'')
                        (encode_payload demo_codec (make_payload ''alice'' 0 0 ''nonce'')))
   \<and> hd (hex (hmac_sha256 demo_codec (hex ''key'')
              (encode_payload demo_codec (make_payload ''alice'' 0 0 ''nonce'')))) = CHR 0x33
   \<and> validate_session demo_codec [] 0
        (encode_payload demo_codec (make_payload ''alice'' 0 0 ''nonce'') @ CHR ''.'' #
           CHR 0xB3 # tl (hex (hmac_sha256 demo_codec (hex ''key'')
                           (encode_payload demo_codec (make_payload ''alice'' 0 0 ''nonce'')))))
        (demo_state 0)
      = (Inl TypeError, demo_state 0)"
proof -
  let ?enc = "encode_payload demo_codec (make_payload ''alice'' 0 0 ''nonce'')"
  let ?sg = "hex (hmac_sha256 demo_codec (hex ''key'') ?enc)"
  have first: "hd ?sg = CHR 0x33" by code_simp
  have tl_out: "x \<notin> set (tl xs)" if "x \<notin> set xs" for x :: char and xs
    using that by (cases xs) auto
  have "CHR ''.'' \<notin> set (tl ?sg)" by (rule tl_out) (rule hex_no_dot)
  then have nodot: "CHR ''.'' \<notin> set (CHR 0xB3 # tl ?sg)" by simp
  have nonascii: "\<not> is_ascii (CHR 0xB3 # tl ?sg)" by (simp add: is_ascii_def)
  have "validate_session demo_codec [] 0 (?enc @ CHR ''.'' # CHR 0xB3 # tl ?sg) (demo_state 0)
          = (Inl TypeError, demo_state 0)"
    by (rule created_token_nonascii_raises [OF demo_session_created nodot nonascii])
  with first demo_token_parts(1) [of 0] show ?thesis by blast
qed

lemma invalidate_session_idem:
  "invalidate_session token (invalidate_session token s) = invalidate_session token s"
proof -
  have "map (\<lambda>r. if ses_token r = token then r\<lparr>ses_active := 0\<rparr> else r)
          (map (\<lambda>r. if ses_token r = token then r\<lparr>ses_active := 0\<rparr> else r) xs)
        = map (\<lambda>r. if ses_token r = token then r\<lparr>ses_active := 0\<rparr> else r) xs" for xs
    by (induction xs) simp_all
  then show ?thesis by (simp add: invalidate_session_def)
qed

lemma invalidate_session_inactive:
  "\<forall>r \<in> set (sessions (invalidate_session token s)). ses_token r = token \<longrightarrow> ses_active r = 0"
proof -
  have "ses_active r = 0"
    if "r \<in> set (map (\<lambda>r. if ses_token r = token then r\<lparr>ses_active := 0\<rparr> else r) xs)"
      and "ses_token r = token" for r xs
    using that
  proof (induction xs)
    case Nil
    then show ?case by simp
  next
    case (Cons x xs)
    show ?case
    proof (cases "r = (if ses_token x = token then x\<lparr>ses_active := 0\<rparr> else x)")
      case True
      show ?thesis
      proof (cases "ses_token x = token")
        case True
        with \<open>r = _\<close> have "r = x\<lparr>ses_active := 0\<rparr>" by simp
        then show ?thesis by simp
      next
        case False
        with \<open>r = _\<close> have "r = x" by simp
        with False Cons.prems(2) show ?thesis by simp
      qed
    next
      case False
      with Cons.prems(1) have "r \<in> set (map (\<lambda>r. if ses_token r = token then r\<lparr>ses_active := 0\<rparr> else r) xs)"
        by simp
      then show ?thesis using Cons.IH Cons.prems(2) by blast
    qed
  qed
  note h = this
  have eq: "sessions (invalidate_session token s)
      = map (\<lambda>r. if ses_token r = token then r\<lparr>ses_active := 0\<rparr> else r) (sessions s)"
    by (simp add: invalidate_session_def)
  show ?thesis
  proof (intro ballI impI)
    fix r
    assume a: "r \<in> set (sessions (invalidate_session token s))" and b: "ses_token r = token"
    from a have "r \<in> set (map (\<lambda>r. if ses_token r = token then r\<lparr>ses_active := 0\<rparr> else r) (sessions s))"
      unfolding eq .
    then show "ses_active r = 0" using b by (rule h)
  qed
qed

text \<open>
  C7 (self-healing invalidation).  Let a token split into \<open>enc\<close> and \<open>sg\<close>, let its
  signature verify, and let its payload decode with an \<^verbatim>\<open>expires_at\<close> that is in the
  past at \<open>now\<close>.  Then \<^verbatim>\<open>validate_session\<close> returns None, and in the state it leaves
  every row of that token has active = 0.  \<^verbatim>\<open>invalidate_session\<close> is idempotent, and
  on the state left behind a second validation (at any later time \<open>now'\<close>) again
  returns None and changes nothing, as does a revocation.
\<close>

theorem expired_session_invalidated:
  assumes split: "rsplit1 (CHR ''.'') token = [enc, sg]"
    and verifies: "compare_digest (fst (sign lib rnd enc st)) sg = Some True"
    and decodes: "decode_payload lib enc = Some pl"
    and expired: "strptime (p_expires_at pl) < now"
    and later: "now \<le> now'"
  shows "fst (validate_session lib rnd now token st) = Inr None
       \<and> (\<forall>r \<in> set (sessions (snd (validate_session lib rnd now token st))).
             ses_token r = token \<longrightarrow> ses_active r = 0)
       \<and> invalidate_session token (invalidate_session token s) = invalidate_session token s
       \<and> validate_session lib rnd' now' token (snd (validate_session lib rnd now token st))
           = (Inr None, snd (validate_session lib rnd now token st))
       \<and> invalidate_session token (snd (validate_session lib rnd now token st))
           = snd (validate_session lib rnd now token st)"
proof -
  let ?s = "sign lib rnd enc st"
  obtain c where key: "key_file (snd ?s) = Some c"
    and sg0: "fst ?s = hex (hmac_sha256 lib (py_strip c) enc)"
    by (rule sign_leaves_key)
  have first: "validate_session lib rnd now token st = (Inr None, invalidate_session token (snd ?s))"
    using verifies decodes expired
    by (simp add: validate_session_def split Let_def case_prod_beta)
  let ?st1 = "invalidate_session token (snd ?s)"
  have key1: "key_file ?st1 = Some c" by (simp add: invalidate_session_def key)
  have verifies1: "compare_digest (hex (hmac_sha256 lib (py_strip c) enc)) sg = Some True"
    using verifies sg0 by simp
  have expired1: "strptime (p_expires_at pl) < now'" using expired later by simp
  have second: "validate_session lib rnd' now' token ?st1 = (Inr None, ?st1)"
    using verifies1 decodes expired1
    by (simp add: validate_session_def split sign_keyed [OF key1] Let_def invalidate_session_idem)
  show ?thesis
    unfolding first
    using second invalidate_session_inactive [of token "snd ?s"]
    by (simp add: invalidate_session_idem)
qed

lemma demo_state_rows:
  "\<exists>row. sessions (demo_state t) = [row] \<and> ses_token row = demo_token t"
  by (simp add: demo_token_def demo_state_def demo_session_def create_session_def
                fresh_system_def sign_def get_secret_key_def Let_def)

theorem expired_session_invalidated_witness:
  "fst (validate_session demo_codec [] 1800000001 (demo_token 0) (demo_state 0)) = Inr None
   \<and> map ses_active (sessions (snd (validate_session demo_codec [] 1800000001 (demo_token 0) (demo_state 0)))) = [0]
   \<and> validate_session demo_codec [] 1900000000 (demo_token 0)
        (snd (validate_session demo_codec [] 1800000001 (demo_token 0) (demo_state 0)))
       = (Inr None, snd (validate_session demo_codec [] 1800000001 (demo_token 0) (demo_state 0)))
   \<and> invalidate_session (demo_token 0)
        (snd (validate_session demo_codec [] 1800000001 (demo_token 0) (demo_state 0)))
       = snd (validate_session demo_codec [] 1800000001 (demo_token 0) (demo_state 0))"
proof -
  let ?enc = "encode_payload demo_codec (make_payload ''alice'' 0 0 ''nonce'')"
  let ?sg = "hex (hmac_sha256 demo_codec (hex ''key'') ?enc)"
  let ?st1 = "snd (validate_session demo_codec [] 1800000001 (demo_token 0) (demo_state 0))"
  have split: "rsplit1 (CHR ''.'') (demo_token 0) = [?enc, ?sg]"
    unfolding demo_token_parts(1) using rsplit1_sep [OF hex_no_dot, of ?enc] by simp
  have verifies: "compare_digest (fst (sign demo_codec [] ?enc (demo_state 0))) ?sg = Some True"
    by (simp add: sign_keyed [OF demo_token_parts(2)] py_strip_hex compare_digest_def hex_ascii)
  have expired: "strptime (p_expires_at (make_payload ''alice'' 0 0 ''nonce'')) < 1800000001"
    by (simp add: make_payload_def strptime_def strftime_def timedelta_minutes_def
                  SESSION_DURATION_MINUTES_def)
  have later: "(1800000001::int) \<le> 1900000000" by simp
  note main = expired_session_invalidated [OF split verifies demo_roundtrip_0 expired later,
            where rnd' = "[]" and s = "demo_state 0"]
  obtain row where rows: "sessions (demo_state 0) = [row]" and tok: "ses_token row = demo_token 0"
    using demo_state_rows [of 0] by blast
  have "?st1 = invalidate_session (demo_token 0) (snd (sign demo_codec [] ?enc (demo_state 0)))"
    using verifies expired
    by (simp add: validate_session_def split demo_roundtrip_0 Let_def case_prod_beta)
  then have "sessions ?st1 = [row\<lparr>ses_active := 0\<rparr>]"
    by (simp add: sign_keyed [OF demo_token_parts(2)] invalidate_session_def rows tok)
  then have "map ses_active (sessions ?st1) = [0]" by simp
  with main show ?thesis by blast
qed

section \<open>Properties of the Authentication Orchestrator\<close>

lemma liveness_failed_effects:
  "liveness_failed lib w cap st =
     ((False, lockout_suffix lib ''Liveness check failed. Please blink naturally.''
                (fst (get_lockout LOCKOUT_IDENTIFIER st) + 1)),
      log_attempt (now_log w) ''UNKNOWN'' ''LIVENESS_FAIL'' 0
        (snd (record_failure (now_failure w) LOCKOUT_IDENTIFIER st)))"
  by (simp add: liveness_failed_def cap_release_def Let_def case_prod_beta record_failure_def)



text \<open>No step of \<^verbatim>\<open>login_user\<close> reads or writes the sessions table or the key file.\<close>

lemma lockout_steps_keep_sessions [simp]:
  "sessions (snd (is_locked_out now ident st)) = sessions st"
  "key_file (snd (is_locked_out now ident st)) = key_file st"
  "sessions (snd (record_failure now ident st)) = sessions st"
  "key_file (snd (record_failure now ident st)) = key_file st"
  "sessions (reset_failures ident st) = sessions st"
  "key_file (reset_failures ident st) = key_file st"
  by (simp_all add: is_locked_out_def record_failure_def reset_failures_def Let_def
               split: option.split)

lemma log_steps_keep_sessions [simp]:
  "sessions (log_attempt now u s c st) = sessions st"
  "key_file (log_attempt now u s c st) = key_file st"
  "sessions (save_intruder_snapshot now fr st) = sessions st"
  "key_file (save_intruder_snapshot now fr st) = key_file st"
  by (simp_all add: log_attempt_def save_intruder_snapshot_def Let_def)

lemma branches_keep_sessions [simp]:
  "sessions (snd (liveness_failed lib w cap st)) = sessions st"
  "key_file (snd (liveness_failed lib w cap st)) = key_file st"
  "sessions (snd (face_not_recognised lib w rs st)) = sessions st"
  "key_file (snd (face_not_recognised lib w rs st)) = key_file st"
  "sessions (snd (pin_stage lib w u q st)) = sessions st"
  "key_file (snd (pin_stage lib w u q st)) = key_file st"
  by (simp_all add: liveness_failed_def face_not_recognised_def pin_stage_def Let_def
                    case_prod_beta split: option.split)

lemma login_user_keeps_sessions:
  "sessions (snd (login_user lib w st)) = sessions st
   \<and> key_file (snd (login_user lib w st)) = key_file st"
  by (simp add: login_user_def Let_def case_prod_beta split: sum.split option.split)

text \<open>The run of \<^verbatim>\<open>login_user\<close> when the lockout gate is open, the model loads, the
  camera opens and the liveness check fails.\<close>

lemma login_user_liveness_failed:
  assumes "\<not> fst (fst (is_locked_out (now_lockout w) LOCKOUT_IDENTIFIER st))"
    and "model_files_exist w" and "model_load w = Inr label_map" and "camera_opens w"
    and "\<not> fst (check_liveness \<lparr>opened = True, stream = camera_frames w\<rparr>)"
  shows "login_user lib w st =
           liveness_failed lib w (snd (check_liveness \<lparr>opened = True, stream = camera_frames w\<rparr>))
             (snd (is_locked_out (now_lockout w) LOCKOUT_IDENTIFIER st))"
  using assms by (simp add: login_user_def Let_def case_prod_beta)

lemma liveness_failed_intruders:
  "intruders (snd (liveness_failed lib w cap st)) = intruders st"
  by (simp add: liveness_failed_effects log_attempt_def record_failure_def Let_def)

text \<open>Every successful run of \<^verbatim>\<open>login_user\<close>: the welcome message names the matched
  identity and its confidence, the lockout row of \<^verbatim>\<open>"login"\<close> is gone, one SUCCESS row
  with that confidence is logged, and nothing else in the tables changes.\<close>

lemma failure_branches_fail [simp]:
  "\<not> fst (fst (liveness_failed lib w cap st))"
  "\<not> fst (fst (face_not_recognised lib w rs st))"
  by (simp_all add: liveness_failed_def face_not_recognised_def Let_def case_prod_beta)

lemma pin_stage_success:
  assumes "pin_stage lib w u q st = ((True, msg), st')"
  shows "msg = ''Login Successful! Welcome, '' @ u @ '' ('' @ format_1f lib q @ ''% confidence)''
       \<and> st' = log_attempt (now_log w) u ''SUCCESS'' q (reset_failures LOCKOUT_IDENTIFIER st)"
  using assms
  by (auto simp: pin_stage_def Let_def case_prod_beta split: option.splits if_splits)

lemma login_user_success:
  assumes "login_user lib w st = ((True, msg), st')"
  shows "\<exists>u q. msg = ''Login Successful! Welcome, '' @ u @ '' ('' @ format_1f lib q @ ''% confidence)''
           \<and> st' = log_attempt (now_log w) u ''SUCCESS'' q
                     (reset_failures LOCKOUT_IDENTIFIER
                        (snd (is_locked_out (now_lockout w) LOCKOUT_IDENTIFIER st)))"
proof -
  let ?st1 = "snd (is_locked_out (now_lockout w) LOCKOUT_IDENTIFIER st)"
  have cases: "\<not> fst (fst (login_user lib w st))
                \<or> (\<exists>u q. login_user lib w st = pin_stage lib w u q ?st1)"
    by (auto simp: login_user_def Let_def case_prod_beta split: sum.split option.split)
  from assms have "fst (fst (login_user lib w st))" by simp
  with cases obtain u q where "login_user lib w st = pin_stage lib w u q ?st1" by blast
  with assms have "pin_stage lib w u q ?st1 = ((True, msg), st')" by simp
  from pin_stage_success [OF this] show ?thesis by blast
qed

text \<open>
  C1, on the code.  Alice, after two failed attempts, passes the liveness check, is
  matched at distance 35 and types the right PIN.  \<^verbatim>\<open>login_user\<close> returns success with
  the welcome message (identity and 65.0 percent), deletes the lockout row of
  \<^verbatim>\<open>"login"\<close> and logs SUCCESS with confidence 65; but the sessions table and the key
  file are as before: no session token is issued.  The same holds of every successful
  run (\<open>login_user_success\<close>, \<open>login_user_keeps_sessions\<close>).
\<close>

theorem login_success_issues_no_session:
  "fst (login_user demo_lib world_success alice_system_two_failures)
     = (True, ''Login Successful! Welcome, alice (65.0% confidence)'')
   \<and> get_lockout ''login'' alice_system_two_failures = (2, None)
   \<and> get_lockout ''login'' (snd (login_user demo_lib world_success alice_system_two_failures))
     = (0, None)
   \<and> logs (snd (login_user demo_lib world_success alice_system_two_failures))
     = [\<lparr>log_username = ''alice'', log_status = ''SUCCESS'', log_confidence = 65,
         log_timestamp = 21\<rparr>]
   \<and> sessions (snd (login_user demo_lib world_success alice_system_two_failures)) = []
   \<and> key_file (snd (login_user demo_lib world_success alice_system_two_failures)) = None"
proof -
  have "fst (login_user demo_lib world_success alice_system_two_failures)
     = (True, ''Login Successful! Welcome, alice (65.0% confidence)'')"
    by code_simp
  moreover have "get_lockout ''login'' alice_system_two_failures = (2, None)"
    by code_simp
  moreover have "get_lockout ''login'' (snd (login_user demo_lib world_success alice_system_two_failures))
     = (0, None)"
    by code_simp
  moreover have "logs (snd (login_user demo_lib world_success alice_system_two_failures))
     = [\<lparr>log_username = ''alice'', log_status = ''SUCCESS'', log_confidence = 65,
         log_timestamp = 21\<rparr>]"
    by code_simp
  moreover have "sessions (snd (login_user demo_lib world_success alice_system_two_failures)) = []"
    by (simp add: login_user_keeps_sessions alice_system_two_failures_def alice_system_def
                  fresh_system_def)
  moreover have "key_file (snd (login_user demo_lib world_success alice_system_two_failures)) = None"
    by (simp add: login_user_keeps_sessions alice_system_two_failures_def alice_system_def
                  fresh_system_def)
  ultimately show ?thesis by blast
qed

text \<open>
  C10, on the code.  The liveness check fails (ESC at the first frame) while the camera
  still has frames to deliver.  \<^verbatim>\<open>login_user\<close> counts one failure on \<^verbatim>\<open>"login"\<close>, logs
  LIVENESS_FAIL and returns the message with the attempts left; but it has released the
  camera before it tries to read the snapshot frame, so no snapshot is saved.  The same
  holds of every run in which the liveness check fails (\<open>login_user_liveness_failed\<close>,
  \<open>liveness_failed_effects\<close>, \<open>liveness_failed_intruders\<close>).
\<close>

theorem liveness_failure_saves_no_snapshot:
  "fst (login_user demo_lib world_liveness_fail alice_system)
     = (False, ''Liveness check failed. Please blink naturally. (4 attempt(s) left before lockout)'')
   \<and> get_lockout ''login'' (snd (login_user demo_lib world_liveness_fail alice_system)) = (1, None)
   \<and> logs (snd (login_user demo_lib world_liveness_fail alice_system))
     = [\<lparr>log_username = ''UNKNOWN'', log_status = ''LIVENESS_FAIL'', log_confidence = 0,
         log_timestamp = 21\<rparr>]
   \<and> stream (snd (check_liveness \<lparr>opened = True, stream = camera_frames world_liveness_fail\<rparr>))
     = [frame_alice, frame_alice]
   \<and> intruders (snd (login_user demo_lib world_liveness_fail alice_system)) = Map.empty"
proof -
  have a: "\<not> fst (fst (is_locked_out (now_lockout world_liveness_fail) LOCKOUT_IDENTIFIER alice_system))"
    by code_simp
  have b: "model_files_exist world_liveness_fail" "camera_opens world_liveness_fail"
    "model_load world_liveness_fail = Inr [1 \<mapsto> ''alice'']"
    by (simp_all add: world_liveness_fail_def)
  have c: "\<not> fst (check_liveness \<lparr>opened = True, stream = camera_frames world_liveness_fail\<rparr>)"
    by code_simp
  have d: "snd (is_locked_out (now_lockout world_liveness_fail) LOCKOUT_IDENTIFIER alice_system)
             = alice_system"
    by (simp add: is_locked_out_def get_lockout_def alice_system_def fresh_system_def
                  LOCKOUT_IDENTIFIER_def)
  have "intruders (snd (login_user demo_lib world_liveness_fail alice_system)) = Map.empty"
    unfolding login_user_liveness_failed [OF a b(1) b(3) b(2) c] liveness_failed_intruders d
    by (simp add: alice_system_def fresh_system_def)
  moreover have "fst (login_user demo_lib world_liveness_fail alice_system)
     = (False, ''Liveness check failed. Please blink naturally. (4 attempt(s) left before lockout)'')"
    by code_simp
  moreover have "get_lockout ''login'' (snd (login_user demo_lib world_liveness_fail alice_system))
     = (1, None)"
    by code_simp
  moreover have "logs (snd (login_user demo_lib world_liveness_fail alice_system))
     = [\<lparr>log_username = ''UNKNOWN'', log_status = ''LIVENESS_FAIL'', log_confidence = 0,
         log_timestamp = 21\<rparr>]"
    by code_simp
  moreover have "stream (snd (check_liveness \<lparr>opened = True, stream = camera_frames world_liveness_fail\<rparr>))
     = [frame_alice, frame_alice]"
    by code_simp
  ultimately show ?thesis by blast
qed

end
